theory Spec2Isabelle
  imports Complex_Main "HOL-Library.Sublist"
begin

section \<open>Samples and the in-memory data store\<close>

text \<open>
  The program is \<^verbatim>\<open>sps30_tray_logger_win.py\<close>. Wall-clock instants (\<^verbatim>\<open>datetime\<close>) are
  counted in microseconds, the resolution of \<^verbatim>\<open>datetime\<close>, from 1970-01-01 00:00 of the
  naive calendar, and a \<^verbatim>\<open>timedelta\<close> is a number of microseconds; both are integers.
  Readings of \<^verbatim>\<open>time.time()\<close> and sleep durations are seconds, taken as rationals.
\<close>

type_synonym instant = int
type_synonym timedelta = int
type_synonym seconds = rat

text \<open>
  A \<^verbatim>\<open>datetime\<close> lies between \<^verbatim>\<open>datetime.min\<close> (0001-01-01 00:00:00, 719162 days before
  1970) and \<^verbatim>\<open>datetime.max\<close> (9999-12-31 23:59:59.999999); \<^verbatim>\<open>datetime - timedelta\<close>
  raises \<^verbatim>\<open>OverflowError\<close> when the result would fall outside.
\<close>

definition datetime_min :: instant where
  "datetime_min = - 62135596800000000"

definition datetime_max :: instant where
  "datetime_max = 253402300799999999"

definition representable :: "instant \<Rightarrow> bool" where
  "representable t = (datetime_min \<le> t \<and> t \<le> datetime_max)"

datatype error = OverflowError

text \<open>
  A Python \<^verbatim>\<open>float\<close>: not-a-number, the two infinities, or a finite value. Comparison
  follows IEEE 754: every comparison with NaN is false, so \<^verbatim>\<open>v == v\<close> holds exactly
  when \<^verbatim>\<open>v\<close> is not NaN.
\<close>

datatype pyfloat = NaN | NegInf | Fin rat | PosInf

fun float_lt :: "pyfloat \<Rightarrow> pyfloat \<Rightarrow> bool" where
  "float_lt NaN _ = False"
| "float_lt _ NaN = False"
| "float_lt PosInf _ = False"
| "float_lt _ NegInf = False"
| "float_lt NegInf _ = True"
| "float_lt _ PosInf = True"
| "float_lt (Fin a) (Fin b) = (a < b)"

definition float_gt :: "pyfloat \<Rightarrow> pyfloat \<Rightarrow> bool" where
  "float_gt a b = float_lt b a"

definition float_eq :: "pyfloat \<Rightarrow> pyfloat \<Rightarrow> bool" where
  "float_eq a b = (a \<noteq> NaN \<and> b \<noteq> NaN \<and> a = b)"

text \<open>\<^verbatim>\<open>Sample = namedtuple('Sample', ['ts', 'pm1', 'pm25', 'pm4', 'pm10'])\<close>\<close>

record sample =
  ts :: instant
  pm1 :: pyfloat
  pm25 :: pyfloat
  pm4 :: pyfloat
  pm10 :: pyfloat

text \<open>
  \<^verbatim>\<open>class DataStore\<close>: a deque of samples, oldest at the front. The lock makes each
  method atomic, so a method is a function on the store.
\<close>

record datastore =
  samples :: "sample list"

definition DataStore :: datastore where
  "DataStore = \<lparr>samples = []\<rparr>"

definition days7 :: timedelta where
  "days7 = 7 * 86400 * 1000000"

text \<open>
  The loop \<^verbatim>\<open>while self.samples and self.samples[0].ts < cutoff: self.samples.popleft()\<close>.
\<close>

fun popleft_while :: "instant \<Rightarrow> sample list \<Rightarrow> sample list" where
  "popleft_while cutoff [] = []"
| "popleft_while cutoff (s # rest) =
     (if ts s < cutoff then popleft_while cutoff rest else s # rest)"

text \<open>
  \<^verbatim>\<open>DataStore.add\<close>; \<open>now\<close> is what \<^verbatim>\<open>datetime.now()\<close> returns inside the call, a
  reading of the system clock, which is more than 7 days after \<^verbatim>\<open>datetime.min\<close>, so
  the cutoff is a \<^verbatim>\<open>datetime\<close>.
\<close>

definition add :: "instant \<Rightarrow> sample \<Rightarrow> datastore \<Rightarrow> datastore" where
  "add now s st =
     (let appended = samples st @ [s];
          cutoff = now - days7
      in st\<lparr>samples := popleft_while cutoff appended\<rparr>)"

text \<open>
  \<^verbatim>\<open>DataStore.get_window\<close>; \<open>None\<close> is Python's \<^verbatim>\<open>None\<close>. The window is any
  \<^verbatim>\<open>timedelta\<close> the caller passes, so \<^verbatim>\<open>cutoff = now - window_td\<close> can leave the range of
  \<^verbatim>\<open>datetime\<close>; the call then ends with \<^verbatim>\<open>OverflowError\<close> and returns nothing.
\<close>

definition get_window :: "instant \<Rightarrow> timedelta option \<Rightarrow> datastore \<Rightarrow> error + sample list" where
  "get_window now window_td st =
     (case window_td of
        None \<Rightarrow> Inr (samples st)
      | Some td \<Rightarrow>
          if representable (now - td) then
            (let cutoff = now - td in Inr (filter (\<lambda>s. ts s \<ge> cutoff) (samples st)))
          else Inl OverflowError)"

text \<open>A sequence of \<^verbatim>\<open>add()\<close> calls, each with the clock reading it sees.\<close>

fun add_all :: "datastore \<Rightarrow> (instant \<times> sample) list \<Rightarrow> datastore" where
  "add_all st [] = st"
| "add_all st ((now, s) # calls) = add_all (add now s st) calls"

text \<open>A sample taken at instant \<open>t\<close> with four fixed finite concentrations.\<close>

definition reading :: "instant \<Rightarrow> sample" where
  "reading t = \<lparr>ts = t, pm1 = Fin 1, pm25 = Fin 2, pm4 = Fin 3, pm10 = Fin 4\<rparr>"

section \<open>Python values and the built-ins the program uses\<close>

text \<open>
  What a driver call can hand back: \<^verbatim>\<open>None\<close>, numbers, strings, lists, tuples, a
  \<^verbatim>\<open>dict\<close> with string keys, or an object with named attributes.
\<close>

datatype pyval =
    PyNone
  | PyBool bool
  | PyInt int
  | PyFloat pyfloat
  | PyStr string
  | PyList "pyval list"
  | PyTuple "pyval list"
  | PyDict "(string \<times> pyval) list"
  | PyObj "(string \<times> pyval) list"

text \<open>
  The interpreter's own numeric routines are not part of the repository; they are
  parameters of the model. \<open>float_of_int\<close> and \<open>float_of_str\<close> are \<^verbatim>\<open>float(x)\<close> on an
  \<^verbatim>\<open>int\<close> and on a \<^verbatim>\<open>str\<close>, with \<open>None\<close> when it raises; \<open>float_sum\<close> is
  \<^verbatim>\<open>sum(vals)\<close> on a non-empty list of floats; \<open>float_div\<close> is \<^verbatim>\<open>a / b\<close> for a non-zero
  \<open>b\<close>.
\<close>

record builtins =
  float_of_int :: "int \<Rightarrow> pyfloat option"
  float_of_str :: "string \<Rightarrow> pyfloat option"
  float_sum :: "pyfloat list \<Rightarrow> pyfloat"
  float_div :: "pyfloat \<Rightarrow> pyfloat \<Rightarrow> pyfloat"

text \<open>
  An instance for the closed examples only; no general theorem depends on it. It
  computes without rounding, which is what Python computes when the exact result is a
  binary64 value (as for the small integers and the sums and quotients of the
  examples), and it agrees with Python that a string which is no numeral, such as
  \<^verbatim>\<open>'n/a'\<close>, is rejected. It is not a model of rounding or of the string syntax of
  \<^verbatim>\<open>float()\<close>: outside those inputs it differs from Python.
\<close>

fun exact_add :: "pyfloat \<Rightarrow> pyfloat \<Rightarrow> pyfloat" where
  "exact_add (Fin a) (Fin b) = Fin (a + b)"
| "exact_add NaN _ = NaN"
| "exact_add _ NaN = NaN"
| "exact_add PosInf NegInf = NaN"
| "exact_add NegInf PosInf = NaN"
| "exact_add PosInf _ = PosInf"
| "exact_add _ PosInf = PosInf"
| "exact_add NegInf _ = NegInf"
| "exact_add _ NegInf = NegInf"

fun exact_div :: "pyfloat \<Rightarrow> pyfloat \<Rightarrow> pyfloat" where
  "exact_div (Fin a) (Fin b) = Fin (a / b)"
| "exact_div NaN _ = NaN"
| "exact_div _ NaN = NaN"
| "exact_div (Fin a) _ = Fin 0"
| "exact_div PosInf (Fin b) = (if 0 < b then PosInf else NegInf)"
| "exact_div NegInf (Fin b) = (if 0 < b then NegInf else PosInf)"
| "exact_div _ _ = NaN"

definition exact_builtins :: builtins where
  "exact_builtins =
     \<lparr>float_of_int = (\<lambda>n. Some (Fin (of_int n))),
      float_of_str = (\<lambda>s. None),
      float_sum = (\<lambda>vals. foldl exact_add (Fin 0) vals),
      float_div = exact_div\<rparr>"

text \<open>The built-in \<^verbatim>\<open>float(x)\<close>; \<open>None\<close> when it raises.\<close>

fun py_float :: "builtins \<Rightarrow> pyval \<Rightarrow> pyfloat option" where
  "py_float b (PyFloat f) = Some f"
| "py_float b (PyInt n) = float_of_int b n"
| "py_float b (PyBool t) = Some (Fin (if t then 1 else 0))"
| "py_float b (PyStr s) = float_of_str b s"
| "py_float b _ = None"

text \<open>
  The local helper \<^verbatim>\<open>_to_float\<close> of \<^verbatim>\<open>_read_measurement\<close>:
  \<^verbatim>\<open>try: return float(x)  except Exception: return float('nan')\<close>.
\<close>

definition to_float :: "builtins \<Rightarrow> pyval \<Rightarrow> pyfloat" where
  "to_float b x = (case py_float b x of Some f \<Rightarrow> f | None \<Rightarrow> NaN)"

text \<open>\<^verbatim>\<open>hasattr\<close>, \<^verbatim>\<open>getattr\<close> with a default, \<^verbatim>\<open>isinstance\<close> and \<^verbatim>\<open>dict.get\<close>.\<close>

fun hasattr :: "pyval \<Rightarrow> string \<Rightarrow> bool" where
  "hasattr (PyObj attrs) name = (map_of attrs name \<noteq> None)"
| "hasattr _ name = False"

fun getattr :: "pyval \<Rightarrow> string \<Rightarrow> pyval \<Rightarrow> pyval" where
  "getattr (PyObj attrs) name dflt = (case map_of attrs name of Some v \<Rightarrow> v | None \<Rightarrow> dflt)"
| "getattr _ name dflt = dflt"

fun is_dict :: "pyval \<Rightarrow> bool" where
  "is_dict (PyDict _) = True"
| "is_dict _ = False"

fun dict_get :: "pyval \<Rightarrow> string \<Rightarrow> pyval \<Rightarrow> pyval" where
  "dict_get (PyDict kvs) key dflt = (case map_of kvs key of Some v \<Rightarrow> v | None \<Rightarrow> dflt)"
| "dict_get _ key dflt = dflt"

text \<open>\<^verbatim>\<open>isinstance(m, (list, tuple))\<close> and the items of such a value.\<close>

fun is_seq :: "pyval \<Rightarrow> bool" where
  "is_seq (PyList _) = True"
| "is_seq (PyTuple _) = True"
| "is_seq _ = False"

fun items :: "pyval \<Rightarrow> pyval list" where
  "items (PyList xs) = xs"
| "items (PyTuple xs) = xs"
| "items _ = []"

section \<open>Normalising a legacy reading\<close>

text \<open>
  Lines 403 to 445 of \<^verbatim>\<open>_read_measurement\<close>: the four concentrations start as NaN and
  the first matching shape of the raw value \<open>m\<close> fills them. Indexing is guarded by the
  length tests, as in the source, and \<^verbatim>\<open>_to_float\<close> never raises, so the
  \<^verbatim>\<open>except\<close> branch (which only logs) is not taken for these values.
\<close>

definition parse_legacy :: "builtins \<Rightarrow> pyval \<Rightarrow> pyfloat \<times> pyfloat \<times> pyfloat \<times> pyfloat" where
  "parse_legacy b m =
     (if hasattr m ''pm1p0'' \<or> hasattr m ''pm2p5'' then
        (to_float b (getattr m ''pm1p0'' (PyFloat NaN)),
         to_float b (getattr m ''pm2p5'' (PyFloat NaN)),
         to_float b (getattr m ''pm4p0'' (PyFloat NaN)),
         to_float b (getattr m ''pm10p0'' (PyFloat NaN)))
      else if is_dict m then
        (to_float b (dict_get m ''pm1p0'' (PyFloat NaN)),
         to_float b (dict_get m ''pm2p5'' (PyFloat NaN)),
         to_float b (dict_get m ''pm4p0'' (PyFloat NaN)),
         to_float b (dict_get m ''pm10p0'' (PyFloat NaN)))
      else if is_seq m \<and> length (items m) \<ge> 4
              \<and> \<not> (length (items m) = 3 \<and> is_seq (items m ! 0)) then
        (to_float b (items m ! 0), to_float b (items m ! 1),
         to_float b (items m ! 2), to_float b (items m ! 3))
      else if is_seq m \<and> length (items m) \<ge> 1 \<and> is_seq (items m ! 0)
              \<and> length (items (items m ! 0)) \<ge> 4 then
        (to_float b (items (items m ! 0) ! 0), to_float b (items (items m ! 0) ! 1),
         to_float b (items (items m ! 0) ! 2), to_float b (items (items m ! 0) ! 3))
      else (NaN, NaN, NaN, NaN))"

text \<open>
  \<^verbatim>\<open>Sample(ts=datetime.now(), pm1=pm1, pm25=pm25, pm4=pm4, pm10=pm10)\<close> on the parsed
  values.
\<close>

definition legacy_sample :: "builtins \<Rightarrow> instant \<Rightarrow> pyval \<Rightarrow> sample" where
  "legacy_sample b now m =
     (case parse_legacy b m of
        (p1, p25, p4, p10) \<Rightarrow> \<lparr>ts = now, pm1 = p1, pm25 = p25, pm4 = p4, pm10 = p10\<rparr>)"

section \<open>Window statistics of the dashboard\<close>

text \<open>\<^verbatim>\<open>_avg\<close>: the mean of the values that are not NaN, NaN when there is none.\<close>

definition avg :: "builtins \<Rightarrow> pyfloat list \<Rightarrow> pyfloat" where
  "avg b values =
     (let vals = filter (\<lambda>v. float_eq v v) values
      in if vals = [] then NaN
         else float_div b (float_sum b vals) (Fin (of_nat (length vals))))"

text \<open>
  The built-in \<^verbatim>\<open>max\<close> on the non-empty list \<open>first # rest\<close>: it keeps the first item
  and replaces it by a later item only when \<^verbatim>\<open>item > current\<close>.
\<close>

fun py_max :: "pyfloat \<Rightarrow> pyfloat list \<Rightarrow> pyfloat" where
  "py_max current [] = current"
| "py_max current (item # rest) = py_max (if float_gt item current then item else current) rest"

text \<open>
  \<^verbatim>\<open>Dashboard._format_stats\<close>. A cell is what \<^verbatim>\<open>fmt\<close> prints: \<open>None\<close> for the dash
  \<^verbatim>\<open>'-'\<close> (a NaN), otherwise the number that is then printed with four decimals.
\<close>

type_synonym cell = "pyfloat option"

record row =
  c1 :: cell
  c25 :: cell
  c4 :: cell
  c10 :: cell

record stats =
  now_row :: row
  avg_row :: row
  max_row :: row

definition fmt :: "pyfloat \<Rightarrow> cell" where
  "fmt v = (if \<not> float_eq v v then None else Some v)"

definition dashes :: row where
  "dashes = \<lparr>c1 = None, c25 = None, c4 = None, c10 = None\<rparr>"

fun format_stats :: "builtins \<Rightarrow> sample list \<Rightarrow> stats" where
  "format_stats b [] = \<lparr>now_row = dashes, avg_row = dashes, max_row = dashes\<rparr>"
| "format_stats b (s # rest) =
     (let samples = s # rest;
          lst = last samples;
          pm1s = map pm1 samples;
          pm25s = map pm25 samples;
          pm4s = map pm4 samples;
          pm10s = map pm10 samples
      in \<lparr>now_row = \<lparr>c1 = fmt (pm1 lst), c25 = fmt (pm25 lst), c4 = fmt (pm4 lst),
                      c10 = fmt (pm10 lst)\<rparr>,
          avg_row = \<lparr>c1 = fmt (avg b pm1s), c25 = fmt (avg b pm25s), c4 = fmt (avg b pm4s),
                      c10 = fmt (avg b pm10s)\<rparr>,
          max_row = \<lparr>c1 = fmt (py_max (hd pm1s) (tl pm1s)),
                      c25 = fmt (py_max (hd pm25s) (tl pm25s)),
                      c4 = fmt (py_max (hd pm4s) (tl pm4s)),
                      c10 = fmt (py_max (hd pm10s) (tl pm10s))\<rparr>\<rparr>)"

text \<open>The four concentration fields by name, to read and to overwrite one of them.\<close>

datatype field = PM1 | PM25 | PM4 | PM10

fun fld :: "field \<Rightarrow> sample \<Rightarrow> pyfloat" where
  "fld PM1 s = pm1 s"
| "fld PM25 s = pm25 s"
| "fld PM4 s = pm4 s"
| "fld PM10 s = pm10 s"

fun put :: "field \<Rightarrow> pyfloat \<Rightarrow> sample \<Rightarrow> sample" where
  "put PM1 v s = s\<lparr>pm1 := v\<rparr>"
| "put PM25 v s = s\<lparr>pm25 := v\<rparr>"
| "put PM4 v s = s\<lparr>pm4 := v\<rparr>"
| "put PM10 v s = s\<lparr>pm10 := v\<rparr>"

fun cell_of :: "field \<Rightarrow> row \<Rightarrow> cell" where
  "cell_of PM1 r = c1 r"
| "cell_of PM25 r = c25 r"
| "cell_of PM4 r = c4 r"
| "cell_of PM10 r = c10 r"

section \<open>The sensor reader\<close>

text \<open>
  Which optional driver modules the import block at the top of the file found:
  \<open>True\<close> when the module-level name is bound to the imported class, \<open>False\<close> when it
  is \<^verbatim>\<open>None\<close>.
\<close>

record drivers =
  ShdlcSerialPort :: bool
  ShdlcConnection :: bool
  Sps30ShdlcDevice :: bool
  ShdlcChannel :: bool
  Sps30UartDevice :: bool
  OutputFormat :: bool

text \<open>A driver object, as far as the reader inspects it with \<^verbatim>\<open>hasattr\<close>.\<close>

record device =
  has_stop_measurement :: bool
  has_start_measurement :: bool
  has_read_measured_values :: bool
  has_read_measured_value :: bool
  has_read_measurement_values_uint16 :: bool

text \<open>
  The fields of \<^verbatim>\<open>SPS30Reader\<close>. An open serial port and a connection are named by
  the port they belong to; \<open>thread\<close> is the handle \<^verbatim>\<open>self._thread\<close>;
  \<open>on_sample_callback\<close> tells whether a callback was given. The debug counter, which
  only paces log lines, is left out, as is all logging.
\<close>

record reader =
  uart_port :: "string option"
  sample_period_s :: seconds
  on_sample_callback :: bool
  stop_event :: bool
  paused :: bool
  thread :: "nat option"
  device :: "device option"
  conn :: "string option"
  port :: "string option"
  consecutive_read_failures :: int
  max_consecutive_failures :: int
  last_sample_time :: "instant option"
  measurement_started :: bool
  warmup_deadline :: seconds

text \<open>\<^verbatim>\<open>SPS30Reader.__init__\<close>\<close>

definition SPS30Reader :: "string option \<Rightarrow> seconds \<Rightarrow> bool \<Rightarrow> reader" where
  "SPS30Reader uart_port_arg period callback =
     \<lparr>uart_port = uart_port_arg,
      sample_period_s = max (1 / 2) period,
      on_sample_callback = callback,
      stop_event = False,
      paused = False,
      thread = None,
      device = None,
      conn = None,
      port = None,
      consecutive_read_failures = 0,
      max_consecutive_failures = 50,
      last_sample_time = None,
      measurement_started = False,
      warmup_deadline = 0\<rparr>"

text \<open>
  What the reader does to the outside, in order: sleeping, the calls on the driver
  and the port made by \<^verbatim>\<open>_disconnect\<close> (preceded by a mark that the method was
  entered), opening a candidate port, and handing a sample to the callback.
  \<open>Idle d\<close> is the closing loop of \<^verbatim>\<open>_run\<close>, which sleeps 50 ms at a time for at
  most \<open>d\<close> seconds.
\<close>

datatype event =
    Sleep seconds
  | Idle seconds
  | EnterDisconnect
  | StopMeasurement
  | ClosePort string
  | TryPort string
  | Callback sample

text \<open>
  What the world answers during one iteration of the loop. Opening a candidate port
  either fails in \<^verbatim>\<open>ShdlcSerialPort(...)\<close>, or fails later while the adapter is built
  on the open port, or yields a driver object.
\<close>

datatype probe_result = PortError | AdapterError | Ready device

record tick_env =
  detected_ports :: "string list"
  probe :: "string \<Rightarrow> probe_result"
  start_fmt_ok :: bool
  start_plain_ok :: bool
  clock_connect :: seconds
  clock_read :: seconds
  raw :: "pyval option"
  wall_read :: instant
  wall_done :: instant

text \<open>
  \<open>detected_ports\<close> is the result of \<^verbatim>\<open>detect_serial_ports()\<close> (empty when it raises);
  \<open>start_fmt_ok\<close> and \<open>start_plain_ok\<close> say whether
  \<^verbatim>\<open>start_measurement(OutputFormat(261))\<close> and \<^verbatim>\<open>start_measurement()\<close> return
  normally; \<open>clock_connect\<close> and \<open>clock_read\<close> are \<^verbatim>\<open>time.time()\<close> in \<^verbatim>\<open>_connect\<close> and
  in \<^verbatim>\<open>_read_measurement\<close>; \<open>raw\<close> is what the driver's read call returns, \<open>None\<close>
  when it raises; \<open>wall_read\<close> and \<open>wall_done\<close> are \<^verbatim>\<open>datetime.now()\<close> when the sample
  is built and when \<^verbatim>\<open>_last_sample_time\<close> is set.
\<close>

text \<open>\<^verbatim>\<open>SPS30Reader._disconnect\<close>\<close>

definition disconnect :: "reader \<Rightarrow> reader \<times> event list" where
  "disconnect s =
     (let stop_evs = (case device s of
                        Some dev \<Rightarrow> if has_stop_measurement dev then [StopMeasurement] else []
                      | None \<Rightarrow> []);
          s1 = s\<lparr>device := None\<rparr>;
          s2 = (if conn s1 \<noteq> None then s1\<lparr>conn := None\<rparr> else s1);
          close_evs = (case port s2 of Some p \<Rightarrow> [ClosePort p] | None \<Rightarrow> []);
          s3 = s2\<lparr>port := None\<rparr>
      in (s3, [EnterDisconnect] @ stop_evs @ close_evs))"

text \<open>\<^verbatim>\<open>SPS30Reader._ensure_started\<close>; every exception is swallowed.\<close>

definition ensure_started :: "drivers \<Rightarrow> tick_env \<Rightarrow> reader \<Rightarrow> reader" where
  "ensure_started d env s =
     (case device s of
        None \<Rightarrow> s
      | Some dev \<Rightarrow>
          if measurement_started s then s
          else if has_start_measurement dev then
            (if OutputFormat d \<and> start_fmt_ok env then s\<lparr>measurement_started := True\<rparr>
             else if start_plain_ok env then s\<lparr>measurement_started := True\<rparr>
             else s)
          else s)"

text \<open>\<^verbatim>\<open>str.upper\<close> on ASCII port names, and \<^verbatim>\<open>f'COM{i}'\<close>.\<close>

definition upper_char :: "char \<Rightarrow> char" where
  "upper_char c =
     (let n = (of_char c :: nat) in if 97 \<le> n \<and> n \<le> 122 then char_of (n - 32) else c)"

definition upper :: "string \<Rightarrow> string" where
  "upper p = map upper_char p"

fun str_of_nat :: "nat \<Rightarrow> string" where
  "str_of_nat n =
     (if n < 10 then [char_of (48 + n)]
      else str_of_nat (n div 10) @ [char_of (48 + n mod 10)])"

text \<open>
  The first lines of \<^verbatim>\<open>_connect\<close>: without the legacy driver and without the UART
  driver it returns \<^verbatim>\<open>False\<close> at once.
\<close>

definition drivers_missing :: "drivers \<Rightarrow> bool" where
  "drivers_missing d =
     ((\<not> ShdlcSerialPort d \<or> \<not> ShdlcConnection d \<or> \<not> Sps30ShdlcDevice d)
      \<and> \<not> (ShdlcSerialPort d \<and> ShdlcChannel d \<and> Sps30UartDevice d))"

text \<open>
  The candidate list of \<^verbatim>\<open>_connect\<close>. \<^verbatim>\<open>if self.uart_port:\<close> is a truth test: \<^verbatim>\<open>None\<close>
  and the empty string both take the scanning branch.
\<close>

definition ports_to_try :: "reader \<Rightarrow> tick_env \<Rightarrow> string list" where
  "ports_to_try s env =
     (let scan = (let detected = filter (\<lambda>p. take 3 (upper p) = ''COM'') (detected_ports env)
                  in if detected \<noteq> [] then detected
                     else map (\<lambda>i. ''COM'' @ str_of_nat i) [3..<41])
      in case uart_port s of
           Some p \<Rightarrow> if p \<noteq> [] then [p] else scan
         | None \<Rightarrow> scan)"

text \<open>
  The \<^verbatim>\<open>for port_name in ports_to_try\<close> loop of \<^verbatim>\<open>_connect\<close>. The UART driver is
  preferred; the legacy driver also keeps its connection object. \<open>opened\<close> is the
  local variable \<^verbatim>\<open>port\<close>: unbound at first, then the port that was opened last. A
  failure at a candidate runs \<^verbatim>\<open>port.close()\<close> on that variable, which is the
  candidate's port when the adapter failed, the port of an earlier candidate when the
  open itself failed, and nothing when no port was opened yet; then the three handles
  are cleared and the loop goes on. The result is the new state, the returned truth
  value and the events.
\<close>

fun try_ports :: "drivers \<Rightarrow> tick_env \<Rightarrow> reader \<Rightarrow> string option \<Rightarrow> string list
    \<Rightarrow> reader \<times> bool \<times> event list" where
  "try_ports d env s opened [] = (s, False, [])"
| "try_ports d env s opened (port_name # rest) =
     (case probe env port_name of
        Ready dev \<Rightarrow>
          (if ShdlcChannel d \<and> Sps30UartDevice d then
             (let s1 = s\<lparr>device := Some dev, port := Some port_name, conn := None\<rparr>;
                  s2 = ensure_started d env s1
              in (s2\<lparr>warmup_deadline := clock_connect env + 5\<rparr>, True, [TryPort port_name]))
           else if Sps30ShdlcDevice d then
             (let s1 = s\<lparr>device := Some dev, port := Some port_name, conn := Some port_name\<rparr>;
                  s2 = ensure_started d env s1
              in (s2\<lparr>warmup_deadline := clock_connect env + 5\<rparr>, True, [TryPort port_name]))
           else
             (case try_ports d env (s\<lparr>port := None, conn := None, device := None\<rparr>)
                     (Some port_name) rest of
                (s', ok, evs) \<Rightarrow> (s', ok, [TryPort port_name, ClosePort port_name] @ evs)))
      | AdapterError \<Rightarrow>
          (case try_ports d env (s\<lparr>port := None, conn := None, device := None\<rparr>)
                  (Some port_name) rest of
             (s', ok, evs) \<Rightarrow> (s', ok, [TryPort port_name, ClosePort port_name] @ evs))
      | PortError \<Rightarrow>
          (case try_ports d env (s\<lparr>port := None, conn := None, device := None\<rparr>) opened rest of
             (s', ok, evs) \<Rightarrow>
               (s', ok,
                [TryPort port_name] @ (case opened of Some q \<Rightarrow> [ClosePort q] | None \<Rightarrow> [])
                  @ evs)))"

text \<open>\<^verbatim>\<open>SPS30Reader._connect\<close>\<close>

definition connect :: "drivers \<Rightarrow> tick_env \<Rightarrow> reader \<Rightarrow> reader \<times> bool \<times> event list" where
  "connect d env s =
     (if drivers_missing d then (s, False, [])
      else try_ports d env s None (ports_to_try s env))"

text \<open>
  Indexing \<^verbatim>\<open>values[i]\<close> for \<open>i \<ge> 0\<close> (\<open>None\<close> when it raises), and the UART branch of
  \<^verbatim>\<open>_read_measurement\<close>: four conversions with the bare \<^verbatim>\<open>float()\<close>, any failure
  giving no sample, then the rescaling of readings above 1000.
\<close>

fun py_index :: "pyval \<Rightarrow> nat \<Rightarrow> pyval option" where
  "py_index (PyList xs) i = (if i < length xs then Some (xs ! i) else None)"
| "py_index (PyTuple xs) i = (if i < length xs then Some (xs ! i) else None)"
| "py_index (PyStr cs) i = (if i < length cs then Some (PyStr [cs ! i]) else None)"
| "py_index _ i = None"

definition uart_sample :: "builtins \<Rightarrow> instant \<Rightarrow> pyval \<Rightarrow> sample option" where
  "uart_sample b now values =
     (case map (\<lambda>i. Option.bind (py_index values i) (py_float b)) [0, 1, 2, 3] of
        [Some mc_1p0, Some mc_2p5, Some mc_4p0, Some mc_10p0] \<Rightarrow>
          (let max_val = py_max mc_1p0 [mc_2p5, mc_4p0, mc_10p0]
           in if float_gt max_val (Fin 1000) then
                Some \<lparr>ts = now,
                      pm1 = float_div b mc_1p0 (Fin 100000),
                      pm25 = float_div b mc_2p5 (Fin 100000),
                      pm4 = float_div b mc_4p0 (Fin 100000),
                      pm10 = float_div b mc_10p0 (Fin 100000)\<rparr>
              else Some \<lparr>ts = now, pm1 = mc_1p0, pm25 = mc_2p5, pm4 = mc_4p0, pm10 = mc_10p0\<rparr>)
      | _ \<Rightarrow> None)"

text \<open>
  \<^verbatim>\<open>SPS30Reader._read_measurement\<close>: no device, no sample; inside the warm-up
  window it sleeps 0.2 s and returns \<^verbatim>\<open>None\<close>; otherwise the legacy read or the UART
  read. The short polling of \<^verbatim>\<open>is_data_ready\<close> before a read only delays it and is
  not recorded.
\<close>

definition read_measurement :: "builtins \<Rightarrow> tick_env \<Rightarrow> reader \<Rightarrow> sample option \<times> event list" where
  "read_measurement b env s =
     (case device s of
        None \<Rightarrow> (None, [])
      | Some dev \<Rightarrow>
          if warmup_deadline s \<noteq> 0 \<and> clock_read env < warmup_deadline s then
            (None, [Sleep (1 / 5)])
          else if has_read_measured_values dev \<or> has_read_measured_value dev then
            (case raw env of
               None \<Rightarrow> (None, [])
             | Some m \<Rightarrow> (Some (legacy_sample b (wall_read env) m), []))
          else if has_read_measurement_values_uint16 dev then
            (case raw env of
               None \<Rightarrow> (None, [])
             | Some values \<Rightarrow> (uart_sample b (wall_read env) values, []))
          else (None, []))"

text \<open>
  The conditions under which \<^verbatim>\<open>_read_measurement\<close> reaches a driver read: the warm-up
  test is passed, and the driver object has a legacy read method, or has none and has
  the UART read method.
\<close>

definition past_warmup :: "tick_env \<Rightarrow> reader \<Rightarrow> bool" where
  "past_warmup env s = (\<not> (warmup_deadline s \<noteq> 0 \<and> clock_read env < warmup_deadline s))"

definition legacy_driver :: "device \<Rightarrow> bool" where
  "legacy_driver dev = (has_read_measured_values dev \<or> has_read_measured_value dev)"

definition uart_driver :: "device \<Rightarrow> bool" where
  "uart_driver dev = (\<not> legacy_driver dev \<and> has_read_measurement_values_uint16 dev)"

section \<open>The sampling loop\<close>

text \<open>
  One iteration of \<^verbatim>\<open>while not self._stop_event.is_set()\<close> in \<^verbatim>\<open>_run\<close>, on the reader
  and the local \<^verbatim>\<open>backoff_s\<close>. An iteration is taken as one step: calls from other
  threads happen between iterations. First the part from \<^verbatim>\<open>sample = ...\<close> on.
\<close>

definition read_phase :: "drivers \<Rightarrow> builtins \<Rightarrow> tick_env \<Rightarrow> reader \<times> seconds
    \<Rightarrow> (reader \<times> seconds) \<times> event list" where
  "read_phase d b env st =
     (case st of (s, backoff_s) \<Rightarrow>
        if paused s then ((s, backoff_s), [Sleep (1 / 5)])
        else
          (case read_measurement b env s of
             (None, evs) \<Rightarrow>
               (let s1 = s\<lparr>consecutive_read_failures := consecutive_read_failures s + 1\<rparr>
                in if consecutive_read_failures s1 \<ge> max_consecutive_failures s1 then
                     (case disconnect s1 of
                        (s2, devs) \<Rightarrow>
                          ((s2\<lparr>consecutive_read_failures := 0, measurement_started := False\<rparr>,
                            backoff_s),
                           evs @ devs @ [Sleep 1]))
                   else ((ensure_started d env s1, backoff_s), evs @ [Sleep (1 / 2)]))
           | (Some smp, evs) \<Rightarrow>
               ((s\<lparr>consecutive_read_failures := 0, last_sample_time := Some (wall_done env)\<rparr>,
                 backoff_s),
                evs @ (if on_sample_callback s then [Callback smp] else [])
                    @ [Idle (sample_period_s s)])))"

text \<open>
  The head of the iteration: the connection attempt when no device is open. The truth
  value in the result is \<open>False\<close> when the iteration ends here with \<^verbatim>\<open>continue\<close>.
\<close>

definition connect_phase :: "drivers \<Rightarrow> tick_env \<Rightarrow> reader \<times> seconds
    \<Rightarrow> (bool \<times> reader \<times> seconds) \<times> event list" where
  "connect_phase d env st =
     (case st of (s, backoff_s) \<Rightarrow>
        if device s = None then
          (case connect d env s of
             (s1, ok, evs) \<Rightarrow>
               if \<not> ok then
                 ((False, s1, min 10 (backoff_s * (3 / 2))), evs @ [Sleep (min 10 backoff_s)])
               else ((True, s1\<lparr>consecutive_read_failures := 0\<rparr>, 1), evs))
        else ((True, s, backoff_s), []))"

definition iteration :: "drivers \<Rightarrow> builtins \<Rightarrow> tick_env \<Rightarrow> reader \<times> seconds
    \<Rightarrow> (reader \<times> seconds) \<times> event list" where
  "iteration d b env st =
     (case connect_phase d env st of
        ((False, st1), evs) \<Rightarrow> (st1, evs)
      | ((True, st1), evs) \<Rightarrow>
          (case read_phase d b env st1 of (st2, evs') \<Rightarrow> (st2, evs @ evs')))"

text \<open>
  \<^verbatim>\<open>SPS30Reader._run\<close>, as far as the given answers of the world reach: it starts with
  \<^verbatim>\<open>backoff_s = 1.0\<close> and iterates until the stop event is set.
\<close>

fun iterate :: "drivers \<Rightarrow> builtins \<Rightarrow> tick_env list \<Rightarrow> reader \<times> seconds
    \<Rightarrow> (reader \<times> seconds) \<times> event list" where
  "iterate d b [] st = (st, [])"
| "iterate d b (env # envs) st =
     (if stop_event (fst st) then (st, [])
      else (case iteration d b env st of
              (st', evs) \<Rightarrow> (case iterate d b envs st' of
                               (st'', evs') \<Rightarrow> (st'', evs @ evs'))))"

definition run :: "drivers \<Rightarrow> builtins \<Rightarrow> tick_env list \<Rightarrow> reader \<Rightarrow> (reader \<times> seconds) \<times> event list" where
  "run d b envs s = iterate d b envs (s, 1)"

text \<open>The sleeps among some events, in order, and the number of calls of \<^verbatim>\<open>_disconnect\<close>.\<close>

fun sleeps :: "event list \<Rightarrow> seconds list" where
  "sleeps [] = []"
| "sleeps (Sleep t # evs) = t # sleeps evs"
| "sleeps (_ # evs) = sleeps evs"

fun tried :: "event list \<Rightarrow> string list" where
  "tried [] = []"
| "tried (TryPort p # evs) = p # tried evs"
| "tried (_ # evs) = tried evs"

fun delivered :: "event list \<Rightarrow> sample list" where
  "delivered [] = []"
| "delivered (Callback smp # evs) = smp # delivered evs"
| "delivered (_ # evs) = delivered evs"

definition disconnects :: "event list \<Rightarrow> nat" where
  "disconnects evs = count_list evs EnterDisconnect"

section \<open>Controls called from other threads\<close>

text \<open>\<^verbatim>\<open>SPS30Reader.set_port\<close>\<close>

definition set_port :: "string option \<Rightarrow> reader \<Rightarrow> reader \<times> event list" where
  "set_port port_name s =
     (case disconnect (s\<lparr>uart_port := port_name\<rparr>) of
        (s1, evs) \<Rightarrow> (s1\<lparr>last_sample_time := None, measurement_started := False\<rparr>, evs))"

text \<open>
  The reader together with the loop threads that are running. \<open>live\<close> lists the
  threads currently inside \<^verbatim>\<open>_run\<close>, \<open>spawned\<close> counts the threads created so far and
  names the next one.
\<close>

record world =
  obj :: reader
  live :: "nat list"
  spawned :: nat

definition boot :: "reader \<Rightarrow> world" where
  "boot s = \<lparr>obj = s, live = [], spawned = 0\<rparr>"

text \<open>\<^verbatim>\<open>SPS30Reader.start\<close>\<close>

definition start :: "world \<Rightarrow> world" where
  "start w =
     (if thread (obj w) \<noteq> None then w
      else w\<lparr>obj := (obj w)\<lparr>stop_event := False, thread := Some (spawned w)\<rparr>,
             live := live w @ [spawned w],
             spawned := spawned w + 1\<rparr>)"

text \<open>
  \<^verbatim>\<open>SPS30Reader.stop\<close>. \<open>joined\<close> tells whether the loop thread had ended when
  \<^verbatim>\<open>self._thread.join(timeout=3.0)\<close> returned; the handle is cleared in both cases.
\<close>

definition stop :: "bool \<Rightarrow> world \<Rightarrow> world \<times> event list" where
  "stop joined w =
     (let s1 = (obj w)\<lparr>stop_event := True\<rparr>;
          lv = (case thread s1 of
                  Some t \<Rightarrow> if joined then removeAll t (live w) else live w
                | None \<Rightarrow> live w);
          s2 = (if thread s1 \<noteq> None then s1\<lparr>thread := None\<rparr> else s1)
      in case disconnect s2 of (s3, evs) \<Rightarrow> (w\<lparr>obj := s3, live := lv\<rparr>, evs))"

text \<open>A running loop thread ends when it finds the stop event set at the head of its loop.\<close>

definition loop_exits :: "nat \<Rightarrow> world \<Rightarrow> world" where
  "loop_exits t w = (if stop_event (obj w) then w\<lparr>live := removeAll t (live w)\<rparr> else w)"

datatype call = Start | Stop bool | LoopExits nat

fun do_calls :: "call list \<Rightarrow> world \<Rightarrow> world" where
  "do_calls [] w = w"
| "do_calls (Start # cs) w = do_calls cs (start w)"
| "do_calls (Stop joined # cs) w = do_calls cs (fst (stop joined w))"
| "do_calls (LoopExits t # cs) w = do_calls cs (loop_exits t w)"

text \<open>
  The loop threads that run are distinct and are at most the one the handle names.
\<close>

definition one_loop :: "world \<Rightarrow> bool" where
  "one_loop w = (distinct (live w) \<and> set (live w) \<subseteq> set_option (thread (obj w)))"

section \<open>Example data\<close>

text \<open>
  A UART driver object and a legacy driver object, an installation with every driver
  module present, a reader that is connected on COM5 with the measurement started,
  and a moment of the world in which no port answers.
\<close>

definition uart_device :: device where
  "uart_device =
     \<lparr>has_stop_measurement = True, has_start_measurement = True,
      has_read_measured_values = False, has_read_measured_value = False,
      has_read_measurement_values_uint16 = True\<rparr>"

definition legacy_device :: device where
  "legacy_device =
     \<lparr>has_stop_measurement = True, has_start_measurement = True,
      has_read_measured_values = True, has_read_measured_value = False,
      has_read_measurement_values_uint16 = False\<rparr>"

definition all_drivers :: drivers where
  "all_drivers =
     \<lparr>ShdlcSerialPort = True, ShdlcConnection = True, Sps30ShdlcDevice = True,
      ShdlcChannel = True, Sps30UartDevice = True, OutputFormat = True\<rparr>"

definition connected_reader :: reader where
  "connected_reader =
     (SPS30Reader (Some ''COM5'') 5 True)
       \<lparr>device := Some uart_device, port := Some ''COM5'', measurement_started := True,
        warmup_deadline := 105\<rparr>"

definition silent_env :: tick_env where
  "silent_env =
     \<lparr>detected_ports = [], probe = (\<lambda>p. PortError), start_fmt_ok = True,
      start_plain_ok = True, clock_connect = 100, clock_read = 101, raw = None,
      wall_read = 1000000, wall_done = 1000001\<rparr>"

text \<open>
  The same reader with the legacy driver, and a moment 95 s after the warm-up deadline
  of both readers.
\<close>

definition legacy_reader :: reader where
  "legacy_reader = connected_reader\<lparr>device := Some legacy_device, conn := Some ''COM5''\<rparr>"

definition later_env :: tick_env where
  "later_env = silent_env\<lparr>clock_read := 200\<rparr>"

section \<open>Properties of the data store\<close>

lemma popleft_while_suffix: "suffix (popleft_while c xs) xs"
  by (induction xs) (auto simp: suffix_Cons)

lemma popleft_while_ge:
  "sorted (map ts xs) \<Longrightarrow> x \<in> set (popleft_while c xs) \<Longrightarrow> c \<le> ts x"
  by (induction xs) (auto split: if_splits)

lemma sorted_map_suffix:
  "suffix ys xs \<Longrightarrow> sorted (map f xs) \<Longrightarrow> sorted (map f ys)"
  by (auto simp: suffix_def sorted_append)

lemma samples_add:
  "samples (add now s st) = popleft_while (now - days7) (samples st @ [s])"
  by (simp add: add_def Let_def)

lemma add_suffix: "suffix (samples (add now s st)) (samples st @ [s])"
  by (simp only: samples_add popleft_while_suffix)

lemma add_all_suffix:
  "suffix (samples (add_all st calls)) (samples st @ map snd calls)"
proof (induction calls arbitrary: st)
  case Nil
  show ?case by simp
next
  case (Cons c calls)
  obtain now s where c: "c = (now, s)" by (cases c)
  have "suffix (samples (add_all (add now s st) calls))
          (samples (add now s st) @ map snd calls)"
    by (rule Cons.IH)
  moreover have "suffix (samples (add now s st) @ map snd calls)
          ((samples st @ [s]) @ map snd calls)"
    using add_suffix [of now s st] by (auto simp: suffix_def)
  ultimately show ?case
    using c by (auto intro: suffix_order.trans)
qed

lemma add_all_snoc:
  "add_all st (calls @ [(now, s)]) = add now s (add_all st calls)"
  by (induction calls arbitrary: st) auto

text \<open>
  C1 (as amended). When the samples are added in non-decreasing timestamp order, then
  after any sequence of \<^verbatim>\<open>add()\<close> calls on a fresh store \<^verbatim>\<open>get_window(None)\<close> returns
  the buffer, which is sorted by timestamp ascending, holds no sample older than 7
  days relative to the clock of the last \<^verbatim>\<open>add()\<close>, and is what is left of the added
  samples after removing elements from the oldest end only.
\<close>

theorem add_all_sorted_retention:
  assumes "sorted (map (ts \<circ> snd) (calls @ [(now, s)]))"
  shows "get_window t None (add_all DataStore (calls @ [(now, s)]))
           = Inr (samples (add_all DataStore (calls @ [(now, s)])))
       \<and> sorted (map ts (samples (add_all DataStore (calls @ [(now, s)]))))
       \<and> (\<forall>x \<in> set (samples (add_all DataStore (calls @ [(now, s)]))).
            now - days7 \<le> ts x)
       \<and> suffix (samples (add_all DataStore (calls @ [(now, s)])))
            (map snd (calls @ [(now, s)]))"
proof -
  let ?all = "calls @ [(now, s)]"
  have srt: "sorted (map ts (map snd ?all))"
    using assms by (simp add: comp_def)
  have suf: "suffix (samples (add_all DataStore ?all)) (map snd ?all)"
    using add_all_suffix [of DataStore ?all] by (simp add: DataStore_def)
  have sorted_res: "sorted (map ts (samples (add_all DataStore ?all)))"
    using suf srt by (rule sorted_map_suffix)
  have prev_suf: "suffix (samples (add_all DataStore calls)) (map snd calls)"
    using add_all_suffix [of DataStore calls] by (simp add: DataStore_def)
  have app_suf: "suffix (samples (add_all DataStore calls) @ [s]) (map snd ?all)"
    using prev_suf by (auto simp: suffix_def)
  have app_sorted: "sorted (map ts (samples (add_all DataStore calls) @ [s]))"
    using app_suf srt by (rule sorted_map_suffix)
  have res: "samples (add_all DataStore ?all) =
      popleft_while (now - days7) (samples (add_all DataStore calls) @ [s])"
    by (simp only: add_all_snoc samples_add)
  have fresh: "\<forall>x \<in> set (samples (add_all DataStore ?all)). now - days7 \<le> ts x"
    unfolding res using popleft_while_ge [OF app_sorted] by blast
  have ret: "get_window t None (add_all DataStore ?all) = Inr (samples (add_all DataStore ?all))"
    by (simp add: get_window_def)
  show ?thesis
    using ret sorted_res fresh suf by blast
qed

theorem add_all_sorted_retention_witness:
  "sorted (map (ts \<circ> snd) ([(7200000000::int, reading 7200000000)] @
       [(611000000000, reading 611000000000)]))
   \<and> get_window 0 None (add_all DataStore ([(7200000000::int, reading 7200000000)] @
       [(611000000000, reading 611000000000)]))
     = Inr [reading 7200000000, reading 611000000000]"
proof -
  have h: "sorted (map (ts \<circ> snd) ([(7200000000::int, reading 7200000000)] @
       [(611000000000, reading 611000000000)]))"
    by (simp add: reading_def)
  have "get_window 0 None (add_all DataStore ([(7200000000::int, reading 7200000000)] @
       [(611000000000, reading 611000000000)]))
     = Inr (samples (add_all DataStore ([(7200000000::int, reading 7200000000)] @
       [(611000000000, reading 611000000000)])))"
    using add_all_sorted_retention [OF h, of 0] by blast
  moreover have "samples (add_all DataStore ([(7200000000::int, reading 7200000000)] @
       [(611000000000, reading 611000000000)])) = [reading 7200000000, reading 611000000000]"
    by (simp add: add_def DataStore_def days7_def reading_def)
  ultimately show ?thesis using h by simp
qed

text \<open>
  The claim C1 as stated, for every sequence of \<^verbatim>\<open>add()\<close> calls, fails when a sample
  arrives with an earlier timestamp than its predecessor (the naive local clock of
  \<^verbatim>\<open>datetime.now()\<close> stepping back one hour): the buffer is no longer sorted, and a
  week later the out-of-order sample is older than 7 days but stays behind a younger
  front element.
\<close>

theorem add_all_unsorted_counterexample:
  "get_window 611000000000 None
     (add_all DataStore [(7200000000, reading 7200000000), (3605000000, reading 3605000000),
        (611000000000, reading 611000000000)])
     = Inr [reading 7200000000, reading 3605000000, reading 611000000000]
   \<and> \<not> sorted (map ts [reading 7200000000, reading 3605000000, reading 611000000000])
   \<and> ts (reading 3605000000) < 611000000000 - days7"
  by (simp add: get_window_def add_def DataStore_def days7_def reading_def)

lemma filter_narrow:
  assumes "\<And>x. P x \<Longrightarrow> Q x"
  shows "filter P xs = filter P (filter Q xs)"
  using assms by (induction xs) auto

text \<open>
  C8 (as amended). \<^verbatim>\<open>get_window(None)\<close> returns the buffer. For every duration \<open>d\<close>
  whose cutoff \<open>now - d\<close> is a \<^verbatim>\<open>datetime\<close>, \<^verbatim>\<open>get_window(d)\<close> returns exactly the
  subsequence of that buffer of the samples with \<open>ts \<ge> now - d\<close>; so of two such
  windows taken at the same instant on the same store the narrower one is a
  subsequence, and a subset, of the wider one. For a duration \<open>e\<close> whose cutoff is not a
  \<^verbatim>\<open>datetime\<close> the call raises \<^verbatim>\<open>OverflowError\<close>.
\<close>

theorem get_window_subsequence:
  "get_window now None st = Inr (samples st)
   \<and> (representable (now - d) \<longrightarrow>
        get_window now (Some d) st = Inr (filter (\<lambda>s. now - d \<le> ts s) (samples st)))
   \<and> (representable (now - d) \<and> representable (now - d') \<and> d \<le> d' \<longrightarrow>
        (\<exists>ws ws'. get_window now (Some d) st = Inr ws \<and> get_window now (Some d') st = Inr ws'
           \<and> subseq ws ws' \<and> set ws \<subseteq> set ws'))
   \<and> (\<not> representable (now - e) \<longrightarrow> get_window now (Some e) st = Inl OverflowError)"
proof -
  have eq: "get_window now (Some d) st = Inr (filter (\<lambda>s. now - d \<le> ts s) (samples st))"
    if "representable (now - d)" for d
    using that by (simp add: get_window_def)
  have sub: "subseq (filter (\<lambda>s. now - d \<le> ts s) (samples st))
               (filter (\<lambda>s. now - d' \<le> ts s) (samples st))" if le: "d \<le> d'"
  proof -
    have "filter (\<lambda>s. now - d \<le> ts s) (samples st)
        = filter (\<lambda>s. now - d \<le> ts s) (filter (\<lambda>s. now - d' \<le> ts s) (samples st))"
      using le by (intro filter_narrow) linarith
    then show ?thesis
      by (simp only: subseq_filter_left)
  qed
  have sset: "set (filter (\<lambda>s. now - d \<le> ts s) (samples st))
               \<subseteq> set (filter (\<lambda>s. now - d' \<le> ts s) (samples st))" if le: "d \<le> d'"
    using le by auto
  have both: "\<exists>ws ws'. get_window now (Some d) st = Inr ws \<and> get_window now (Some d') st = Inr ws'
           \<and> subseq ws ws' \<and> set ws \<subseteq> set ws'"
    if "representable (now - d)" "representable (now - d')" "d \<le> d'"
    using eq [OF that(1)] eq [OF that(2)] sub [OF that(3)] sset [OF that(3)] by blast
  have none: "get_window now None st = Inr (samples st)"
    by (simp add: get_window_def)
  have ovf: "get_window now (Some e) st = Inl OverflowError" if "\<not> representable (now - e)"
    using that by (simp add: get_window_def)
  show ?thesis
    using none eq both ovf by blast
qed

text \<open>
  The witness is taken on 2026-11-04 at noon, with windows of one and three hours and
  a duration of 800000 days, whose cutoff would lie before year 1.
\<close>

theorem get_window_subsequence_witness:
  "representable (1793793600000000 - 3600000000)
   \<and> representable (1793793600000000 - 10800000000)
   \<and> (3600000000::int) \<le> 10800000000
   \<and> \<not> representable (1793793600000000 - 69120000000000000)
   \<and> get_window 1793793600000000 (Some 3600000000)
        \<lparr>samples = [reading 1793780000000000, reading 1793785000000000,
                    reading 1793792000000000]\<rparr>
       = Inr [reading 1793792000000000]
   \<and> get_window 1793793600000000 (Some 10800000000)
        \<lparr>samples = [reading 1793780000000000, reading 1793785000000000,
                    reading 1793792000000000]\<rparr>
       = Inr [reading 1793785000000000, reading 1793792000000000]
   \<and> get_window 1793793600000000 (Some 69120000000000000)
        \<lparr>samples = [reading 1793780000000000, reading 1793785000000000,
                    reading 1793792000000000]\<rparr>
       = Inl OverflowError"
proof -
  have h: "representable (1793793600000000 - 3600000000)"
    "representable (1793793600000000 - 10800000000)"
    "(3600000000::int) \<le> 10800000000"
    "\<not> representable (1793793600000000 - 69120000000000000)"
    by (simp_all add: representable_def datetime_min_def datetime_max_def)
  show ?thesis
    using h get_window_subsequence [of 1793793600000000
        "\<lparr>samples = [reading 1793780000000000, reading 1793785000000000,
                    reading 1793792000000000]\<rparr>"
        3600000000 10800000000 69120000000000000]
    by (simp add: reading_def get_window_def)
qed

text \<open>
  The claim C8 for every duration fails at a duration whose cutoff is no
  \<^verbatim>\<open>datetime\<close>: on 2026-11-04 at noon \<^verbatim>\<open>get_window(timedelta(days=800000))\<close> raises
  \<^verbatim>\<open>OverflowError\<close>, while the subsequence of \<^verbatim>\<open>get_window(None)\<close> with
  \<open>ts \<ge> now - d\<close> is the whole buffer.
\<close>

theorem get_window_overflow_counterexample:
  "get_window 1793793600000000 (Some 69120000000000000)
        \<lparr>samples = [reading 1793780000000000, reading 1793792000000000]\<rparr>
       = Inl OverflowError
   \<and> get_window 1793793600000000 None
        \<lparr>samples = [reading 1793780000000000, reading 1793792000000000]\<rparr>
       = Inr [reading 1793780000000000, reading 1793792000000000]
   \<and> filter (\<lambda>s. 1793793600000000 - 69120000000000000 \<le> ts s)
        [reading 1793780000000000, reading 1793792000000000]
       = [reading 1793780000000000, reading 1793792000000000]"
  by (simp add: get_window_def representable_def datetime_min_def datetime_max_def
      reading_def)

section \<open>Properties of the normalisation and of the statistics\<close>

lemma to_float_PyFloat: "to_float b (PyFloat f) = f"
  by (simp add: to_float_def)

lemma parse_legacy_flat:
  assumes "is_seq m" "length (items m) \<ge> 4"
  shows "parse_legacy b m = (to_float b (items m ! 0), to_float b (items m ! 1),
           to_float b (items m ! 2), to_float b (items m ! 3))"
  using assms by (cases m) (simp_all add: parse_legacy_def)

lemma parse_legacy_nested:
  assumes "is_seq m" "length (items m) = 3" "is_seq (items m ! 0)"
    "length (items (items m ! 0)) \<ge> 4"
  shows "parse_legacy b m = (to_float b (items (items m ! 0) ! 0),
           to_float b (items (items m ! 0) ! 1), to_float b (items (items m ! 0) ! 2),
           to_float b (items (items m ! 0) ! 3))"
  using assms by (cases m) (simp_all add: parse_legacy_def)

lemma read_measurement_legacy:
  assumes "device s = Some dev" "legacy_driver dev" "past_warmup env s"
  shows "read_measurement b (env\<lparr>raw := Some m\<rparr>) s
     = (Some (legacy_sample b (wall_read env) m), [])"
  using assms by (simp add: read_measurement_def legacy_driver_def past_warmup_def)

lemma read_measurement_uart:
  assumes "device s = Some dev" "uart_driver dev" "past_warmup env s"
  shows "read_measurement b (env\<lparr>raw := Some v\<rparr>) s = (uart_sample b (wall_read env) v, [])"
  using assms
  by (simp add: read_measurement_def uart_driver_def legacy_driver_def past_warmup_def)

lemma py_index_seq:
  "is_seq v \<Longrightarrow> py_index v i = (if i < length (items v) then Some (items v ! i) else None)"
  by (cases v) simp_all

lemma uart_sample_ok:
  assumes "is_seq v" "4 \<le> length (items v)"
    "py_float b (items v ! 0) = Some f0" "py_float b (items v ! 1) = Some f1"
    "py_float b (items v ! 2) = Some f2" "py_float b (items v ! 3) = Some f3"
  shows "uart_sample b now v =
     Some (if float_gt (py_max f0 [f1, f2, f3]) (Fin 1000)
           then \<lparr>ts = now, pm1 = float_div b f0 (Fin 100000),
                  pm25 = float_div b f1 (Fin 100000), pm4 = float_div b f2 (Fin 100000),
                  pm10 = float_div b f3 (Fin 100000)\<rparr>
           else \<lparr>ts = now, pm1 = f0, pm25 = f1, pm4 = f2, pm10 = f3\<rparr>)"
proof -
  have lens: "0 < length (items v)" "1 < length (items v)" "2 < length (items v)"
    "3 < length (items v)"
    using assms(2) by auto
  have e: "Option.bind (py_index v 0) (py_float b) = Some f0"
    "Option.bind (py_index v 1) (py_float b) = Some f1"
    "Option.bind (py_index v 2) (py_float b) = Some f2"
    "Option.bind (py_index v 3) (py_float b) = Some f3"
    using assms(3-6) lens by (simp_all add: py_index_seq [OF assms(1)])
  have l: "map (\<lambda>i. Option.bind (py_index v i) (py_float b)) [0, 1, 2, 3]
      = [Some f0, Some f1, Some f2, Some f3]"
    using e by simp
  show ?thesis
    unfolding uart_sample_def l by (simp add: Let_def)
qed

lemma uart_sample_fails:
  assumes "is_seq v" "i < 4" "length (items v) \<le> i \<or> py_float b (items v ! i) = None"
  shows "uart_sample b now v = None"
proof -
  define e where "e = (\<lambda>j. Option.bind (py_index v j) (py_float b))"
  have ei: "e i = None"
    using assms(1,3) by (auto simp: e_def py_index_seq)
  have "i = 0 \<or> i = 1 \<or> i = 2 \<or> i = 3" using assms(2) by auto
  then have "e 0 = None \<or> e 1 = None \<or> e 2 = None \<or> e 3 = None"
    using ei by auto
  moreover have "uart_sample b now v =
     (case [e 0, e 1, e 2, e 3] of
        [Some mc_1p0, Some mc_2p5, Some mc_4p0, Some mc_10p0] \<Rightarrow>
          (let max_val = py_max mc_1p0 [mc_2p5, mc_4p0, mc_10p0]
           in if float_gt max_val (Fin 1000) then
                Some \<lparr>ts = now,
                      pm1 = float_div b mc_1p0 (Fin 100000),
                      pm25 = float_div b mc_2p5 (Fin 100000),
                      pm4 = float_div b mc_4p0 (Fin 100000),
                      pm10 = float_div b mc_10p0 (Fin 100000)\<rparr>
              else Some \<lparr>ts = now, pm1 = mc_1p0, pm25 = mc_2p5, pm4 = mc_4p0, pm10 = mc_10p0\<rparr>)
      | _ \<Rightarrow> None)"
    by (simp add: uart_sample_def e_def)
  ultimately show ?thesis
    by (cases "e 0"; cases "e 1"; cases "e 2"; cases "e 3") simp_all
qed


lemma legacy_sample_flat:
  assumes "is_seq m" "length (items m) = 4"
  shows "legacy_sample b now m
          = \<lparr>ts = now, pm1 = to_float b (items m ! 0), pm25 = to_float b (items m ! 1),
               pm4 = to_float b (items m ! 2), pm10 = to_float b (items m ! 3)\<rparr>"
  using assms by (simp add: legacy_sample_def parse_legacy_flat)

lemma legacy_sample_nested:
  assumes "is_seq n" "length (items n) = 3" "is_seq (items n ! 0)"
    "length (items (items n ! 0)) = 4"
  shows "legacy_sample b now n
          = \<lparr>ts = now, pm1 = to_float b (items (items n ! 0) ! 0),
               pm25 = to_float b (items (items n ! 0) ! 1),
               pm4 = to_float b (items (items n ! 0) ! 2),
               pm10 = to_float b (items (items n ! 0) ! 3)\<rparr>"
  using assms by (simp add: legacy_sample_def parse_legacy_nested)

text \<open>
  C7 (as amended). On the legacy read path (a driver object with
  \<^verbatim>\<open>read_measured_values\<close> or \<^verbatim>\<open>read_measured_value\<close>), past the warm-up window, the
  flat input \<^verbatim>\<open>[1.0, 2.0, 3.0, 4.0]\<close> gives a sample with these four values in order;
  any flat 4-element list or tuple is read positionally through \<^verbatim>\<open>_to_float\<close>; a
  3-element list or tuple whose first element is an inner 4-sequence is read
  positionally from that inner sequence; \<^verbatim>\<open>_to_float\<close> returns a float unchanged and
  returns NaN for a value that \<^verbatim>\<open>float()\<close> rejects, each field being computed from its
  own element only. On the UART read path (\<^verbatim>\<open>read_measurement_values_uint16\<close> and no
  legacy read method) the first four items are converted with the bare \<^verbatim>\<open>float()\<close>:
  when all four convert they are the sample's values, each divided by 100000 when
  the largest exceeds 1000, and when one is missing or does not convert, as for a
  non-numeric field or the nested shape, there is no sample.
\<close>

theorem read_measurement_shapes:
  "(device s = Some dev \<and> legacy_driver dev \<and> past_warmup env s \<longrightarrow>
      fst (read_measurement b
             (env\<lparr>raw := Some (PyList [PyFloat (Fin 1), PyFloat (Fin 2), PyFloat (Fin 3),
                                        PyFloat (Fin 4)])\<rparr>) s)
        = Some \<lparr>ts = wall_read env, pm1 = Fin 1, pm25 = Fin 2, pm4 = Fin 3, pm10 = Fin 4\<rparr>
    \<and> (is_seq m \<and> length (items m) = 4 \<longrightarrow>
         fst (read_measurement b (env\<lparr>raw := Some m\<rparr>) s)
           = Some \<lparr>ts = wall_read env, pm1 = to_float b (items m ! 0),
                    pm25 = to_float b (items m ! 1), pm4 = to_float b (items m ! 2),
                    pm10 = to_float b (items m ! 3)\<rparr>)
    \<and> (is_seq n \<and> length (items n) = 3 \<and> is_seq (items n ! 0)
         \<and> length (items (items n ! 0)) = 4 \<longrightarrow>
         fst (read_measurement b (env\<lparr>raw := Some n\<rparr>) s)
           = Some \<lparr>ts = wall_read env, pm1 = to_float b (items (items n ! 0) ! 0),
                    pm25 = to_float b (items (items n ! 0) ! 1),
                    pm4 = to_float b (items (items n ! 0) ! 2),
                    pm10 = to_float b (items (items n ! 0) ! 3)\<rparr>))
   \<and> to_float b (PyFloat f) = f
   \<and> (py_float b x = None \<longrightarrow> to_float b x = NaN)
   \<and> (device u = Some udev \<and> uart_driver udev \<and> past_warmup uenv u \<longrightarrow>
        (is_seq v \<and> 4 \<le> length (items v)
           \<and> py_float b (items v ! 0) = Some f0 \<and> py_float b (items v ! 1) = Some f1
           \<and> py_float b (items v ! 2) = Some f2 \<and> py_float b (items v ! 3) = Some f3 \<longrightarrow>
           fst (read_measurement b (uenv\<lparr>raw := Some v\<rparr>) u)
             = Some (if float_gt (py_max f0 [f1, f2, f3]) (Fin 1000)
                     then \<lparr>ts = wall_read uenv, pm1 = float_div b f0 (Fin 100000),
                            pm25 = float_div b f1 (Fin 100000),
                            pm4 = float_div b f2 (Fin 100000),
                            pm10 = float_div b f3 (Fin 100000)\<rparr>
                     else \<lparr>ts = wall_read uenv, pm1 = f0, pm25 = f1, pm4 = f2, pm10 = f3\<rparr>))
      \<and> (is_seq w \<and> i < 4 \<and> (length (items w) \<le> i \<or> py_float b (items w ! i) = None) \<longrightarrow>
           fst (read_measurement b (uenv\<lparr>raw := Some w\<rparr>) u) = None))"
proof -
  have leg: "fst (read_measurement b (env\<lparr>raw := Some r\<rparr>) s)
      = Some (legacy_sample b (wall_read env) r)"
    if "device s = Some dev \<and> legacy_driver dev \<and> past_warmup env s" for r
    using that by (simp add: read_measurement_legacy)
  have ua: "fst (read_measurement b (uenv\<lparr>raw := Some r\<rparr>) u) = uart_sample b (wall_read uenv) r"
    if "device u = Some udev \<and> uart_driver udev \<and> past_warmup uenv u" for r
    using that by (simp add: read_measurement_uart)
  have one: "legacy_sample b (wall_read env)
        (PyList [PyFloat (Fin 1), PyFloat (Fin 2), PyFloat (Fin 3), PyFloat (Fin 4)])
      = \<lparr>ts = wall_read env, pm1 = Fin 1, pm25 = Fin 2, pm4 = Fin 3, pm10 = Fin 4\<rparr>"
    by (simp add: legacy_sample_flat to_float_PyFloat)
  have nan: "to_float b x = NaN" if "py_float b x = None"
    using that by (simp add: to_float_def)
  have ok: "uart_sample b (wall_read uenv) v
      = Some (if float_gt (py_max f0 [f1, f2, f3]) (Fin 1000)
                     then \<lparr>ts = wall_read uenv, pm1 = float_div b f0 (Fin 100000),
                            pm25 = float_div b f1 (Fin 100000),
                            pm4 = float_div b f2 (Fin 100000),
                            pm10 = float_div b f3 (Fin 100000)\<rparr>
                     else \<lparr>ts = wall_read uenv, pm1 = f0, pm25 = f1, pm4 = f2, pm10 = f3\<rparr>)"
    if "is_seq v \<and> 4 \<le> length (items v)
           \<and> py_float b (items v ! 0) = Some f0 \<and> py_float b (items v ! 1) = Some f1
           \<and> py_float b (items v ! 2) = Some f2 \<and> py_float b (items v ! 3) = Some f3"
    using that by (intro uart_sample_ok) simp_all
  have bad: "uart_sample b (wall_read uenv) w = None"
    if "is_seq w \<and> i < 4 \<and> (length (items w) \<le> i \<or> py_float b (items w ! i) = None)"
    using that by (intro uart_sample_fails [of w i]) simp_all
  show ?thesis
  proof (intro conjI impI)
    assume h: "device s = Some dev \<and> legacy_driver dev \<and> past_warmup env s"
    show "fst (read_measurement b
             (env\<lparr>raw := Some (PyList [PyFloat (Fin 1), PyFloat (Fin 2), PyFloat (Fin 3),
                                        PyFloat (Fin 4)])\<rparr>) s)
        = Some \<lparr>ts = wall_read env, pm1 = Fin 1, pm25 = Fin 2, pm4 = Fin 3, pm10 = Fin 4\<rparr>"
      by (simp only: leg [OF h] one)
    {
      assume "is_seq m \<and> length (items m) = 4"
      then show "fst (read_measurement b (env\<lparr>raw := Some m\<rparr>) s)
           = Some \<lparr>ts = wall_read env, pm1 = to_float b (items m ! 0),
                    pm25 = to_float b (items m ! 1), pm4 = to_float b (items m ! 2),
                    pm10 = to_float b (items m ! 3)\<rparr>"
        by (simp only: leg [OF h]) (simp add: legacy_sample_flat)
    }
    {
      assume "is_seq n \<and> length (items n) = 3 \<and> is_seq (items n ! 0)
         \<and> length (items (items n ! 0)) = 4"
      then show "fst (read_measurement b (env\<lparr>raw := Some n\<rparr>) s)
           = Some \<lparr>ts = wall_read env, pm1 = to_float b (items (items n ! 0) ! 0),
                    pm25 = to_float b (items (items n ! 0) ! 1),
                    pm4 = to_float b (items (items n ! 0) ! 2),
                    pm10 = to_float b (items (items n ! 0) ! 3)\<rparr>"
        by (simp only: leg [OF h]) (simp add: legacy_sample_nested)
    }
  next
    show "to_float b (PyFloat f) = f" by (rule to_float_PyFloat)
  next
    assume "py_float b x = None"
    then show "to_float b x = NaN" by (rule nan)
  next
    assume h: "device u = Some udev \<and> uart_driver udev \<and> past_warmup uenv u"
    {
      assume a: "is_seq v \<and> 4 \<le> length (items v)
           \<and> py_float b (items v ! 0) = Some f0 \<and> py_float b (items v ! 1) = Some f1
           \<and> py_float b (items v ! 2) = Some f2 \<and> py_float b (items v ! 3) = Some f3"
      show "fst (read_measurement b (uenv\<lparr>raw := Some v\<rparr>) u)
             = Some (if float_gt (py_max f0 [f1, f2, f3]) (Fin 1000)
                     then \<lparr>ts = wall_read uenv, pm1 = float_div b f0 (Fin 100000),
                            pm25 = float_div b f1 (Fin 100000),
                            pm4 = float_div b f2 (Fin 100000),
                            pm10 = float_div b f3 (Fin 100000)\<rparr>
                     else \<lparr>ts = wall_read uenv, pm1 = f0, pm25 = f1, pm4 = f2, pm10 = f3\<rparr>)"
        by (simp only: ua [OF h] ok [OF a])
    }
    {
      assume a: "is_seq w \<and> i < 4
          \<and> (length (items w) \<le> i \<or> py_float b (items w ! i) = None)"
      show "fst (read_measurement b (uenv\<lparr>raw := Some w\<rparr>) u) = None"
        by (simp only: ua [OF h] bad [OF a])
    }
  qed
qed


text \<open>
  The witness reads a flat list with a string in second place and the nested tuple
  through the legacy driver, and a flat numeric list and a flat list with \<^verbatim>\<open>None\<close> in
  second place through the UART driver.
\<close>

theorem read_measurement_shapes_witness:
  "device legacy_reader = Some legacy_device \<and> legacy_driver legacy_device
   \<and> past_warmup later_env legacy_reader
   \<and> fst (read_measurement exact_builtins
        (later_env\<lparr>raw := Some (PyList [PyFloat (Fin 1), PyStr ''n/a'', PyFloat (Fin 3),
                                        PyFloat (Fin 4)])\<rparr>) legacy_reader)
       = Some \<lparr>ts = 1000000, pm1 = Fin 1, pm25 = NaN, pm4 = Fin 3, pm10 = Fin 4\<rparr>
   \<and> fst (read_measurement exact_builtins
        (later_env\<lparr>raw := Some (PyTuple
            [PyTuple [PyFloat (Fin 1), PyFloat (Fin 2), PyFloat (Fin 3), PyFloat (Fin 4)],
             PyTuple [PyFloat (Fin 7), PyFloat (Fin 8), PyFloat (Fin 9), PyFloat (Fin 9),
                      PyFloat (Fin 9)],
             PyInt 5])\<rparr>) legacy_reader)
       = Some \<lparr>ts = 1000000, pm1 = Fin 1, pm25 = Fin 2, pm4 = Fin 3, pm10 = Fin 4\<rparr>
   \<and> py_float exact_builtins (PyStr ''n/a'') = None
   \<and> device connected_reader = Some uart_device \<and> uart_driver uart_device
   \<and> past_warmup later_env connected_reader
   \<and> fst (read_measurement exact_builtins
        (later_env\<lparr>raw := Some (PyList [PyFloat (Fin 1), PyFloat (Fin 2), PyFloat (Fin 3),
                                        PyFloat (Fin 4)])\<rparr>) connected_reader)
       = Some \<lparr>ts = 1000000, pm1 = Fin 1, pm25 = Fin 2, pm4 = Fin 3, pm10 = Fin 4\<rparr>
   \<and> fst (read_measurement exact_builtins
        (later_env\<lparr>raw := Some (PyList [PyFloat (Fin 1), PyNone, PyFloat (Fin 3),
                                        PyFloat (Fin 4)])\<rparr>) connected_reader)
       = None"
proof -
  have l: "device legacy_reader = Some legacy_device \<and> legacy_driver legacy_device
      \<and> past_warmup later_env legacy_reader"
    by (simp add: legacy_reader_def connected_reader_def SPS30Reader_def legacy_driver_def
        legacy_device_def past_warmup_def later_env_def silent_env_def)
  have u: "device connected_reader = Some uart_device \<and> uart_driver uart_device
      \<and> past_warmup later_env connected_reader"
    by (simp add: connected_reader_def SPS30Reader_def uart_driver_def legacy_driver_def
        uart_device_def past_warmup_def later_env_def silent_env_def)
  have w: "wall_read later_env = 1000000"
    by (simp add: later_env_def silent_env_def)
  have x: "py_float exact_builtins (PyStr ''n/a'') = None"
    by (simp add: exact_builtins_def)
  show ?thesis
    using l u x
      read_measurement_shapes [of legacy_reader legacy_device later_env exact_builtins
        "PyList [PyFloat (Fin 1), PyStr ''n/a'', PyFloat (Fin 3), PyFloat (Fin 4)]"
        "PyTuple
            [PyTuple [PyFloat (Fin 1), PyFloat (Fin 2), PyFloat (Fin 3), PyFloat (Fin 4)],
             PyTuple [PyFloat (Fin 7), PyFloat (Fin 8), PyFloat (Fin 9), PyFloat (Fin 9),
                      PyFloat (Fin 9)],
             PyInt 5]"
        "Fin 1" "PyStr ''n/a''" connected_reader uart_device later_env
        "PyList [PyFloat (Fin 1), PyFloat (Fin 2), PyFloat (Fin 3), PyFloat (Fin 4)]"
        "Fin 1" "Fin 2" "Fin 3" "Fin 4"
        "PyList [PyFloat (Fin 1), PyNone, PyFloat (Fin 3), PyFloat (Fin 4)]" 1]
    by (simp add: w to_float_def float_gt_def exact_builtins_def)
qed

text \<open>
  The claim C7 as stated, for the read path whatever the driver, fails on the UART
  driver, which \<^verbatim>\<open>_connect\<close> prefers: a flat input with a non-numeric field and the
  nested input both give no sample, where the claim has a sample with one NaN field
  and a sample read from the inner sequence.
\<close>

theorem uart_read_counterexample:
  "fst (read_measurement exact_builtins
        (later_env\<lparr>raw := Some (PyList [PyFloat (Fin 1), PyNone, PyFloat (Fin 3),
                                        PyFloat (Fin 4)])\<rparr>) connected_reader)
       = None
   \<and> fst (read_measurement exact_builtins
        (later_env\<lparr>raw := Some (PyTuple
            [PyTuple [PyFloat (Fin 1), PyFloat (Fin 2), PyFloat (Fin 3), PyFloat (Fin 4)],
             PyTuple [PyFloat (Fin 7), PyFloat (Fin 8), PyFloat (Fin 9), PyFloat (Fin 9),
                      PyFloat (Fin 9)],
             PyInt 5])\<rparr>) connected_reader)
       = None"
  by (simp add: read_measurement_def uart_sample_def connected_reader_def SPS30Reader_def
      uart_device_def later_env_def silent_env_def exact_builtins_def)

lemma float_eq_refl: "float_eq v v = (v \<noteq> NaN)"
  by (simp add: float_eq_def)

lemma avg_skip_nan: "avg b (us @ NaN # vs) = avg b (us @ vs)"
  by (simp add: avg_def float_eq_refl)

lemma float_gt_nan: "\<not> float_gt x NaN" "\<not> float_gt NaN x"
  by (cases x; simp add: float_gt_def)+

lemma py_max_nan_first: "py_max NaN vs = NaN"
  by (induction vs) (simp_all add: float_gt_nan)

lemma py_max_skip_nan: "py_max u (us @ NaN # vs) = py_max u (us @ vs)"
  by (induction us arbitrary: u) (simp_all add: float_gt_nan)

lemma map_update_other:
  assumes "\<And>s. f (g s) = f s"
  shows "map f (xs[i := g (xs ! i)]) = map f xs"
proof (cases "i < length xs")
  case True
  have "map f (xs[i := g (xs ! i)]) = (map f xs)[i := map f xs ! i]"
    using True assms by (simp add: map_update)
  then show ?thesis by simp
next
  case False
  then have "length xs \<le> i" by simp
  then have "xs[i := g (xs ! i)] = xs" by (rule list_update_beyond)
  then show ?thesis by simp
qed

lemma fld_eq: "fld PM1 = pm1" "fld PM25 = pm25" "fld PM4 = pm4" "fld PM10 = pm10"
  by (rule ext, simp)+

lemma fld_put_other: "f \<noteq> g \<Longrightarrow> fld g (put f v s) = fld g s"
  by (cases f; cases g; simp)

lemma avg_cell: "cell_of g (avg_row (format_stats b xs))
    = (if xs = [] then None else fmt (avg b (map (fld g) xs)))"
  by (cases xs; cases g; simp add: dashes_def Let_def fld_eq)

lemma max_cell: "cell_of g (max_row (format_stats b xs))
    = (if xs = [] then None else fmt (py_max (hd (map (fld g) xs)) (tl (map (fld g) xs))))"
  by (cases xs; cases g; simp add: dashes_def Let_def fld_eq)

lemma avg_all_nan: "avg b (replicate k NaN) = NaN"
  by (simp add: avg_def float_eq_refl)

lemma avg_remaining: "avg b values = avg b (filter (\<lambda>v. v \<noteq> NaN) values)"
  by (simp add: avg_def float_eq_refl)

text \<open>
  C9 (as amended). Overwriting one field of one sample with NaN changes neither the
  average cell nor the maximum cell of any other field. In its own field the NaN does
  not propagate into the average: \<^verbatim>\<open>_avg\<close> leaves NaN values out, so the average of a
  column is the average of its values that are not NaN, a NaN at any position changes
  nothing, and the average of a column of NaN alone is NaN.
\<close>

theorem nan_in_one_field:
  "(f \<noteq> g \<longrightarrow>
      cell_of g (avg_row (format_stats b (xs[i := put f NaN (xs ! i)])))
        = cell_of g (avg_row (format_stats b xs))
    \<and> cell_of g (max_row (format_stats b (xs[i := put f NaN (xs ! i)])))
        = cell_of g (max_row (format_stats b xs)))
   \<and> avg b values = avg b (filter (\<lambda>v. v \<noteq> NaN) values)
   \<and> avg b (us @ NaN # vs) = avg b (us @ vs)
   \<and> avg b (replicate k NaN) = NaN"
proof -
  have other: "map (fld g) (xs[i := put f NaN (xs ! i)]) = map (fld g) xs" if "f \<noteq> g"
    using that by (intro map_update_other) (simp add: fld_put_other)
  have "cell_of g (avg_row (format_stats b (xs[i := put f NaN (xs ! i)])))
        = cell_of g (avg_row (format_stats b xs))" if "f \<noteq> g"
    by (simp add: avg_cell other [OF that])
  moreover have "cell_of g (max_row (format_stats b (xs[i := put f NaN (xs ! i)])))
        = cell_of g (max_row (format_stats b xs))" if "f \<noteq> g"
    by (simp add: max_cell other [OF that])
  ultimately show ?thesis
    using avg_remaining [of b "values"] avg_skip_nan [of b us vs] avg_all_nan [of b k]
    by blast
qed

theorem nan_in_one_field_witness:
  "PM1 \<noteq> PM25
   \<and> cell_of PM25 (avg_row (format_stats exact_builtins
        ([reading 0, reading 5][1 := put PM1 NaN ([reading 0, reading 5] ! 1)])))
       = cell_of PM25 (avg_row (format_stats exact_builtins [reading 0, reading 5]))
   \<and> cell_of PM25 (avg_row (format_stats exact_builtins [reading 0, reading 5])) = Some (Fin 2)
   \<and> cell_of PM25 (max_row (format_stats exact_builtins
        ([reading 0, reading 5][1 := put PM1 NaN ([reading 0, reading 5] ! 1)])))
       = Some (Fin 2)"
proof -
  have h: "PM1 \<noteq> PM25" by simp
  have "cell_of PM25 (avg_row (format_stats exact_builtins
        ([reading 0, reading 5][1 := put PM1 NaN ([reading 0, reading 5] ! 1)])))
       = cell_of PM25 (avg_row (format_stats exact_builtins [reading 0, reading 5]))"
    using h nan_in_one_field [of PM1 PM25 exact_builtins "[reading 0, reading 5]" 1]
    by blast
  moreover have "cell_of PM25 (avg_row (format_stats exact_builtins [reading 0, reading 5]))
       = Some (Fin 2)"
    by (simp add: Let_def reading_def avg_def float_eq_def fmt_def exact_builtins_def)
  moreover have "cell_of PM25 (max_row (format_stats exact_builtins
        ([reading 0, reading 5][1 := put PM1 NaN ([reading 0, reading 5] ! 1)])))
       = Some (Fin 2)"
    by (simp add: Let_def reading_def float_gt_def float_eq_def fmt_def)
  ultimately show ?thesis using h by blast
qed

text \<open>
  The claim C9 read as NaN propagation fails: with a NaN in \<open>pm1\<close> of the second of
  two samples, \<^verbatim>\<open>_avg\<close> of the \<open>pm1\<close> column is 1, the value of the other sample, and
  the dashboard shows it, not a NaN.
\<close>

theorem nan_dropped_counterexample:
  "avg exact_builtins (map pm1 [reading 0, (reading 5)\<lparr>pm1 := NaN\<rparr>]) = Fin 1
   \<and> c1 (avg_row (format_stats exact_builtins [reading 0, (reading 5)\<lparr>pm1 := NaN\<rparr>]))
     = Some (Fin 1)"
  by (simp add: Let_def reading_def avg_def float_eq_def fmt_def exact_builtins_def)

section \<open>Properties of the reader and of the loop\<close>

lemma disconnect_fields:
  "device (fst (disconnect s)) = None"
  "conn (fst (disconnect s)) = None"
  "port (fst (disconnect s)) = None"
  "measurement_started (fst (disconnect s)) = measurement_started s"
  "consecutive_read_failures (fst (disconnect s)) = consecutive_read_failures s"
  "max_consecutive_failures (fst (disconnect s)) = max_consecutive_failures s"
  "last_sample_time (fst (disconnect s)) = last_sample_time s"
  "uart_port (fst (disconnect s)) = uart_port s"
  "stop_event (fst (disconnect s)) = stop_event s"
  "paused (fst (disconnect s)) = paused s"
  "thread (fst (disconnect s)) = thread s"
  "warmup_deadline (fst (disconnect s)) = warmup_deadline s"
  by (simp_all add: disconnect_def Let_def)

lemma disconnect_events:
  "disconnects (snd (disconnect s)) = 1"
  "sleeps (snd (disconnect s)) = []"
  "delivered (snd (disconnect s)) = []"
  "tried (snd (disconnect s)) = []"
  by (simp_all add: disconnect_def Let_def disconnects_def split: option.splits)

lemma ensure_started_fields:
  "device (ensure_started d env s) = device s"
  "consecutive_read_failures (ensure_started d env s) = consecutive_read_failures s"
  "max_consecutive_failures (ensure_started d env s) = max_consecutive_failures s"
  "last_sample_time (ensure_started d env s) = last_sample_time s"
  "stop_event (ensure_started d env s) = stop_event s"
  "paused (ensure_started d env s) = paused s"
  "warmup_deadline (ensure_started d env s) = warmup_deadline s"
  "uart_port (ensure_started d env s) = uart_port s"
  by (simp_all add: ensure_started_def split: option.splits)

lemma disconnects_Nil: "disconnects [] = 0"
  by (simp add: disconnects_def)

lemma try_ports_frame:
  "uart_port (fst (try_ports d env s opened ps)) = uart_port s
   \<and> stop_event (fst (try_ports d env s opened ps)) = stop_event s
   \<and> paused (fst (try_ports d env s opened ps)) = paused s
   \<and> last_sample_time (fst (try_ports d env s opened ps)) = last_sample_time s
   \<and> max_consecutive_failures (fst (try_ports d env s opened ps)) = max_consecutive_failures s
   \<and> sleeps (snd (snd (try_ports d env s opened ps))) = []
   \<and> delivered (snd (snd (try_ports d env s opened ps))) = []
   \<and> disconnects (snd (snd (try_ports d env s opened ps))) = 0"
proof (induction ps arbitrary: s opened)
  case Nil
  show ?case by (simp add: disconnects_def)
next
  case (Cons p ps)
  let ?c = "s\<lparr>port := None, conn := None, device := None\<rparr>"
  obtain s1 ok1 evs1 where r1: "try_ports d env ?c opened ps = (s1, ok1, evs1)"
    by (cases "try_ports d env ?c opened ps")
  obtain s2 ok2 evs2 where r2: "try_ports d env ?c (Some p) ps = (s2, ok2, evs2)"
    by (cases "try_ports d env ?c (Some p) ps")
  have ih1: "uart_port s1 = uart_port s \<and> stop_event s1 = stop_event s \<and> paused s1 = paused s
      \<and> last_sample_time s1 = last_sample_time s
      \<and> max_consecutive_failures s1 = max_consecutive_failures s
      \<and> sleeps evs1 = [] \<and> delivered evs1 = [] \<and> disconnects evs1 = 0"
    using Cons.IH [of ?c opened] r1 by simp
  have ih2: "uart_port s2 = uart_port s \<and> stop_event s2 = stop_event s \<and> paused s2 = paused s
      \<and> last_sample_time s2 = last_sample_time s
      \<and> max_consecutive_failures s2 = max_consecutive_failures s
      \<and> sleeps evs2 = [] \<and> delivered evs2 = [] \<and> disconnects evs2 = 0"
    using Cons.IH [of ?c "Some p"] r2 by simp
  show ?case
    using r1 r2 ih1 ih2
    by (cases "probe env p"; cases opened)
       (simp_all add: Let_def ensure_started_fields disconnects_def)
qed

lemma try_ports_ok:
  "fst (snd (try_ports d env s opened ps)) \<Longrightarrow>
     device (fst (try_ports d env s opened ps)) \<noteq> None
   \<and> warmup_deadline (fst (try_ports d env s opened ps)) = clock_connect env + 5"
proof (induction ps arbitrary: s opened)
  case Nil
  then show ?case by simp
next
  case (Cons p ps)
  let ?c = "s\<lparr>port := None, conn := None, device := None\<rparr>"
  obtain s1 ok1 evs1 where r1: "try_ports d env ?c opened ps = (s1, ok1, evs1)"
    by (cases "try_ports d env ?c opened ps")
  obtain s2 ok2 evs2 where r2: "try_ports d env ?c (Some p) ps = (s2, ok2, evs2)"
    by (cases "try_ports d env ?c (Some p) ps")
  have ih1: "ok1 \<Longrightarrow> device s1 \<noteq> None \<and> warmup_deadline s1 = clock_connect env + 5"
    using Cons.IH [of ?c opened] r1 by simp
  have ih2: "ok2 \<Longrightarrow> device s2 \<noteq> None \<and> warmup_deadline s2 = clock_connect env + 5"
    using Cons.IH [of ?c "Some p"] r2 by simp
  show ?case
    using Cons.prems r1 r2 ih1 ih2
    by (cases "probe env p")
       (auto simp: Let_def ensure_started_fields split: if_splits)
qed

lemma try_ports_failed:
  "\<not> fst (snd (try_ports d env s opened ps)) \<Longrightarrow> device s = None
     \<Longrightarrow> device (fst (try_ports d env s opened ps)) = None"
proof (induction ps arbitrary: s opened)
  case Nil
  then show ?case by simp
next
  case (Cons p ps)
  let ?c = "s\<lparr>port := None, conn := None, device := None\<rparr>"
  obtain s1 ok1 evs1 where r1: "try_ports d env ?c opened ps = (s1, ok1, evs1)"
    by (cases "try_ports d env ?c opened ps")
  obtain s2 ok2 evs2 where r2: "try_ports d env ?c (Some p) ps = (s2, ok2, evs2)"
    by (cases "try_ports d env ?c (Some p) ps")
  have ih1: "\<not> ok1 \<Longrightarrow> device s1 = None"
    using Cons.IH [of ?c opened] r1 by simp
  have ih2: "\<not> ok2 \<Longrightarrow> device s2 = None"
    using Cons.IH [of ?c "Some p"] r2 by simp
  show ?case
    using Cons.prems(1) r1 r2 ih1 ih2
    by (cases "probe env p") (auto simp: Let_def split: if_splits)
qed

lemma try_ports_ok_indep:
  "fst (snd (try_ports d env s opened ps)) = fst (snd (try_ports d env s' opened' ps))"
proof (induction ps arbitrary: s s' opened opened')
  case Nil
  show ?case by simp
next
  case (Cons p ps)
  let ?c = "s\<lparr>port := None, conn := None, device := None\<rparr>"
  let ?c' = "s'\<lparr>port := None, conn := None, device := None\<rparr>"
  obtain s1 ok1 evs1 where r1: "try_ports d env ?c opened ps = (s1, ok1, evs1)"
    by (cases "try_ports d env ?c opened ps")
  obtain s2 ok2 evs2 where r2: "try_ports d env ?c (Some p) ps = (s2, ok2, evs2)"
    by (cases "try_ports d env ?c (Some p) ps")
  obtain s1' ok1' evs1' where r1': "try_ports d env ?c' opened' ps = (s1', ok1', evs1')"
    by (cases "try_ports d env ?c' opened' ps")
  obtain s2' ok2' evs2' where r2': "try_ports d env ?c' (Some p) ps = (s2', ok2', evs2')"
    by (cases "try_ports d env ?c' (Some p) ps")
  have ih1: "ok1 = ok1'"
    using Cons.IH [of ?c opened ?c' opened'] r1 r1' by simp
  have ih2: "ok2 = ok2'"
    using Cons.IH [of ?c "Some p" ?c' "Some p"] r2 r2' by simp
  show ?case
    using r1 r2 r1' r2' ih1 ih2 by (cases "probe env p") (simp_all add: Let_def)
qed

lemma try_ports_all_fail:
  "(\<And>p. probe env p = PortError) \<Longrightarrow> \<not> fst (snd (try_ports d env s opened ps))"
proof (induction ps arbitrary: s)
  case Nil
  show ?case by simp
next
  case (Cons p ps)
  let ?c = "s\<lparr>port := None, conn := None, device := None\<rparr>"
  obtain s' ok evs where r: "try_ports d env ?c opened ps = (s', ok, evs)"
    by (cases "try_ports d env ?c opened ps")
  have ih: "\<not> ok" using Cons.IH [of ?c] Cons.prems r by simp
  show ?case using r ih Cons.prems [of p] by simp
qed

lemma tried_try_ports_single: "tried (snd (snd (try_ports d env s None [p]))) = [p]"
  by (cases "probe env p") (simp_all add: Let_def)

lemma ports_to_try_indep:
  "uart_port s' = uart_port s \<Longrightarrow> ports_to_try s' env = ports_to_try s env"
  by (simp add: ports_to_try_def)

lemma connect_frame:
  "uart_port (fst (connect d env s)) = uart_port s"
  "stop_event (fst (connect d env s)) = stop_event s"
  "paused (fst (connect d env s)) = paused s"
  "last_sample_time (fst (connect d env s)) = last_sample_time s"
  "max_consecutive_failures (fst (connect d env s)) = max_consecutive_failures s"
  "sleeps (snd (snd (connect d env s))) = []"
  "delivered (snd (snd (connect d env s))) = []"
  "disconnects (snd (snd (connect d env s))) = 0"
  by (simp_all add: connect_def try_ports_frame disconnects_Nil)

lemma connect_succeeded:
  assumes "fst (snd (connect d env s))"
  shows "device (fst (connect d env s)) \<noteq> None"
    and "warmup_deadline (fst (connect d env s)) = clock_connect env + 5"
  using assms try_ports_ok [of d env s None "ports_to_try s env"]
  by (simp_all add: connect_def split: if_splits)

lemma connect_failed:
  "\<not> fst (snd (connect d env s)) \<Longrightarrow> device s = None \<Longrightarrow> device (fst (connect d env s)) = None"
  by (simp add: connect_def try_ports_failed split: if_splits)

lemma connect_ok_indep:
  assumes "uart_port s' = uart_port s"
  shows "fst (snd (connect d env s')) = fst (snd (connect d env s))"
  using try_ports_ok_indep [of d env s' None "ports_to_try s env" s None]
  by (simp add: connect_def ports_to_try_indep [OF assms])

lemma read_measurement_warmup:
  assumes "device s \<noteq> None" "warmup_deadline s \<noteq> 0" "clock_read env < warmup_deadline s"
  shows "read_measurement b env s = (None, [Sleep (1 / 5)])"
  using assms by (auto simp: read_measurement_def split: option.splits)

lemma read_phase_no_sample:
  assumes "\<not> paused s" "read_measurement b env s = (None, evs)"
  shows "read_phase d b env (s, bo) =
    (if consecutive_read_failures s + 1 \<ge> max_consecutive_failures s then
       (((fst (disconnect (s\<lparr>consecutive_read_failures := consecutive_read_failures s + 1\<rparr>)))
            \<lparr>consecutive_read_failures := 0, measurement_started := False\<rparr>, bo),
        evs @ snd (disconnect (s\<lparr>consecutive_read_failures := consecutive_read_failures s + 1\<rparr>))
            @ [Sleep 1])
     else ((ensure_started d env (s\<lparr>consecutive_read_failures := consecutive_read_failures s + 1\<rparr>), bo),
           evs @ [Sleep (1 / 2)]))"
  using assms by (simp add: read_phase_def Let_def split: prod.splits)

lemma connect_phase_open:
  assumes "device s \<noteq> None"
  shows "connect_phase d env (s, bo) = ((True, s, bo), [])"
  using assms by (cases "device s") (simp_all add: connect_phase_def)

lemma iteration_open:
  assumes "device s \<noteq> None"
  shows "iteration d b env (s, bo) = read_phase d b env (s, bo)"
  by (cases "read_phase d b env (s, bo)") (simp add: iteration_def connect_phase_open [OF assms])

lemma delivered_append: "delivered (xs @ ys) = delivered xs @ delivered ys"
  by (induction xs rule: delivered.induct) simp_all

lemma sleeps_append: "sleeps (xs @ ys) = sleeps xs @ sleeps ys"
  by (induction xs rule: sleeps.induct) simp_all

lemma tried_append: "tried (xs @ ys) = tried xs @ tried ys"
  by (induction xs rule: tried.induct) simp_all

lemma disconnects_append: "disconnects (xs @ ys) = disconnects xs + disconnects ys"
  by (simp add: disconnects_def)

lemma connect_phase_succeeds:
  assumes "device s = None" "fst (snd (connect d env s))"
  shows "connect_phase d env (s, bo) =
     ((True, (fst (connect d env s))\<lparr>consecutive_read_failures := 0\<rparr>, 1),
      snd (snd (connect d env s)))"
  using assms by (cases "connect d env s") (simp add: connect_phase_def)

lemma iteration_connects:
  assumes "device s = None" "fst (snd (connect d env s))"
  shows "iteration d b env (s, bo) =
     (fst (read_phase d b env ((fst (connect d env s))\<lparr>consecutive_read_failures := 0\<rparr>, 1)),
      snd (snd (connect d env s))
        @ snd (read_phase d b env ((fst (connect d env s))\<lparr>consecutive_read_failures := 0\<rparr>, 1)))"
  by (cases "read_phase d b env ((fst (connect d env s))\<lparr>consecutive_read_failures := 0\<rparr>, 1)")
     (simp add: iteration_def connect_phase_succeeds [OF assms])

lemma read_phase_warmup:
  assumes "device s \<noteq> None" "\<not> paused s" "warmup_deadline s \<noteq> 0"
    "clock_read env < warmup_deadline s"
  shows "delivered (snd (read_phase d b env (s, bo))) = []"
    and "last_sample_time (fst (fst (read_phase d b env (s, bo)))) = last_sample_time s"
    and "consecutive_read_failures (fst (fst (read_phase d b env (s, bo))))
           = (if consecutive_read_failures s + 1 \<ge> max_consecutive_failures s then 0
              else consecutive_read_failures s + 1)"
    and "disconnects (snd (read_phase d b env (s, bo)))
           = (if consecutive_read_failures s + 1 \<ge> max_consecutive_failures s then 1 else 0)"
    and "device (fst (fst (read_phase d b env (s, bo))))
           = (if consecutive_read_failures s + 1 \<ge> max_consecutive_failures s then None
              else device s)"
proof -
  have r: "read_measurement b env s = (None, [Sleep (1 / 5)])"
    using assms(1,3,4) by (rule read_measurement_warmup)
  have one: "disconnects (Sleep t # evs) = disconnects evs" for t evs
    by (simp add: disconnects_def)
  show "delivered (snd (read_phase d b env (s, bo))) = []"
    and "last_sample_time (fst (fst (read_phase d b env (s, bo)))) = last_sample_time s"
    and "consecutive_read_failures (fst (fst (read_phase d b env (s, bo))))
           = (if consecutive_read_failures s + 1 \<ge> max_consecutive_failures s then 0
              else consecutive_read_failures s + 1)"
    and "disconnects (snd (read_phase d b env (s, bo)))
           = (if consecutive_read_failures s + 1 \<ge> max_consecutive_failures s then 1 else 0)"
    and "device (fst (fst (read_phase d b env (s, bo))))
           = (if consecutive_read_failures s + 1 \<ge> max_consecutive_failures s then None
              else device s)"
    unfolding read_phase_no_sample [OF assms(2) r]
    by (simp_all add: disconnect_fields disconnect_events ensure_started_fields
        delivered_append disconnects_append disconnects_Nil one)
qed

text \<open>
  C2 (as amended). An iteration of the loop, not paused, whose read falls before the
  warm-up deadline hands no sample to the callback and leaves \<^verbatim>\<open>_last_sample_time\<close>
  alone, but \<^verbatim>\<open>_run\<close> treats the missing sample like any failed read: the
  consecutive-failure counter goes up by one, and when that reaches the threshold
  \<^verbatim>\<open>_disconnect\<close> is called once, the device is dropped and the counter is back at 0.
  This holds for an iteration that finds the device open, and for the iteration whose
  \<^verbatim>\<open>_connect\<close> has just succeeded, where the counter is first reset and so ends at 1
  below the threshold.
\<close>

theorem warmup_tick_counts_failure:
  "(device s \<noteq> None \<and> \<not> paused s \<and> warmup_deadline s \<noteq> 0
      \<and> clock_read env < warmup_deadline s \<longrightarrow>
      delivered (snd (iteration d b env (s, bo))) = []
    \<and> last_sample_time (fst (fst (iteration d b env (s, bo)))) = last_sample_time s
    \<and> consecutive_read_failures (fst (fst (iteration d b env (s, bo))))
        = (if consecutive_read_failures s + 1 \<ge> max_consecutive_failures s then 0
           else consecutive_read_failures s + 1)
    \<and> disconnects (snd (iteration d b env (s, bo)))
        = (if consecutive_read_failures s + 1 \<ge> max_consecutive_failures s then 1 else 0)
    \<and> device (fst (fst (iteration d b env (s, bo))))
        = (if consecutive_read_failures s + 1 \<ge> max_consecutive_failures s then None
           else device s))
   \<and> (device c = None \<and> fst (snd (connect d env' c)) \<and> \<not> paused c
      \<and> clock_connect env' + 5 \<noteq> 0 \<and> clock_read env' < clock_connect env' + 5 \<longrightarrow>
      delivered (snd (iteration d b env' (c, bo))) = []
    \<and> last_sample_time (fst (fst (iteration d b env' (c, bo)))) = last_sample_time c
    \<and> consecutive_read_failures (fst (fst (iteration d b env' (c, bo))))
        = (if 1 \<ge> max_consecutive_failures c then 0 else 1)
    \<and> disconnects (snd (iteration d b env' (c, bo)))
        = (if 1 \<ge> max_consecutive_failures c then 1 else 0)
    \<and> device (fst (fst (iteration d b env' (c, bo))))
        = (if 1 \<ge> max_consecutive_failures c then None else device (fst (connect d env' c))))"
proof (intro conjI impI)
  assume a: "device s \<noteq> None \<and> \<not> paused s \<and> warmup_deadline s \<noteq> 0
      \<and> clock_read env < warmup_deadline s"
  then have h: "device s \<noteq> None" "\<not> paused s" "warmup_deadline s \<noteq> 0"
    "clock_read env < warmup_deadline s"
    by simp_all
  show "delivered (snd (iteration d b env (s, bo))) = []"
    unfolding iteration_open [OF h(1)] using h by (rule read_phase_warmup)
  show "last_sample_time (fst (fst (iteration d b env (s, bo)))) = last_sample_time s"
    unfolding iteration_open [OF h(1)] using h by (rule read_phase_warmup)
  show "consecutive_read_failures (fst (fst (iteration d b env (s, bo))))
        = (if consecutive_read_failures s + 1 \<ge> max_consecutive_failures s then 0
           else consecutive_read_failures s + 1)"
    unfolding iteration_open [OF h(1)] using h by (rule read_phase_warmup)
  show "disconnects (snd (iteration d b env (s, bo)))
        = (if consecutive_read_failures s + 1 \<ge> max_consecutive_failures s then 1 else 0)"
    unfolding iteration_open [OF h(1)] using h by (rule read_phase_warmup)
  show "device (fst (fst (iteration d b env (s, bo))))
        = (if consecutive_read_failures s + 1 \<ge> max_consecutive_failures s then None
           else device s)"
    unfolding iteration_open [OF h(1)] using h by (rule read_phase_warmup)
next
  assume a: "device c = None \<and> fst (snd (connect d env' c)) \<and> \<not> paused c
      \<and> clock_connect env' + 5 \<noteq> 0 \<and> clock_read env' < clock_connect env' + 5"
  then have closed: "device c = None" and ok: "fst (snd (connect d env' c))"
    and np: "\<not> paused c" and nz: "clock_connect env' + 5 \<noteq> 0"
    and early: "clock_read env' < clock_connect env' + 5"
    by simp_all
  define s1 where "s1 = (fst (connect d env' c))\<lparr>consecutive_read_failures := 0\<rparr>"
  have h: "device s1 \<noteq> None" "\<not> paused s1" "warmup_deadline s1 \<noteq> 0"
    "clock_read env' < warmup_deadline s1"
    using connect_succeeded [OF ok] np nz early by (simp_all add: s1_def connect_frame)
  have f: "consecutive_read_failures s1 = 0"
    "max_consecutive_failures s1 = max_consecutive_failures c"
    "last_sample_time s1 = last_sample_time c" "device s1 = device (fst (connect d env' c))"
    by (simp_all add: s1_def connect_frame)
  have it: "iteration d b env' (c, bo) =
     (fst (read_phase d b env' (s1, 1)),
      snd (snd (connect d env' c)) @ snd (read_phase d b env' (s1, 1)))"
    unfolding s1_def using closed ok by (rule iteration_connects)
  show "delivered (snd (iteration d b env' (c, bo))) = []"
    unfolding it using read_phase_warmup(1) [OF h, of d b 1]
    by (simp add: delivered_append connect_frame)
  show "last_sample_time (fst (fst (iteration d b env' (c, bo)))) = last_sample_time c"
    unfolding it using read_phase_warmup(2) [OF h, of d b 1] by (simp add: f)
  show "consecutive_read_failures (fst (fst (iteration d b env' (c, bo))))
        = (if 1 \<ge> max_consecutive_failures c then 0 else 1)"
    unfolding it using read_phase_warmup(3) [OF h, of d b 1] by (simp add: f)
  show "disconnects (snd (iteration d b env' (c, bo)))
        = (if 1 \<ge> max_consecutive_failures c then 1 else 0)"
    unfolding it using read_phase_warmup(4) [OF h, of d b 1]
    by (simp add: disconnects_append connect_frame f)
  show "device (fst (fst (iteration d b env' (c, bo))))
        = (if 1 \<ge> max_consecutive_failures c then None else device (fst (connect d env' c)))"
    unfolding it using read_phase_warmup(5) [OF h, of d b 1] by (simp add: f)
qed

text \<open>
  The witness takes a connected reader one second into its warm-up window, once with
  the counter at 0 and once at 49, and a new reader whose first \<^verbatim>\<open>_connect\<close> succeeds
  one second before the read.
\<close>

theorem warmup_tick_counts_failure_witness:
  "device connected_reader \<noteq> None \<and> \<not> paused connected_reader
   \<and> warmup_deadline connected_reader \<noteq> 0
   \<and> clock_read silent_env < warmup_deadline connected_reader
   \<and> consecutive_read_failures connected_reader = 0
   \<and> delivered (snd (iteration all_drivers exact_builtins silent_env (connected_reader, 1))) = []
   \<and> consecutive_read_failures
        (fst (fst (iteration all_drivers exact_builtins silent_env (connected_reader, 1)))) = 1
   \<and> disconnects (snd (iteration all_drivers exact_builtins silent_env (connected_reader, 1))) = 0
   \<and> disconnects (snd (iteration all_drivers exact_builtins silent_env
        (connected_reader\<lparr>consecutive_read_failures := 49\<rparr>, 1))) = 1
   \<and> device (fst (fst (iteration all_drivers exact_builtins silent_env
        (connected_reader\<lparr>consecutive_read_failures := 49\<rparr>, 1)))) = None
   \<and> device (SPS30Reader (Some ''COM5'') 5 True) = None
   \<and> fst (snd (connect all_drivers (silent_env\<lparr>probe := (\<lambda>p. Ready uart_device)\<rparr>)
        (SPS30Reader (Some ''COM5'') 5 True)))
   \<and> consecutive_read_failures
        (fst (fst (iteration all_drivers exact_builtins
           (silent_env\<lparr>probe := (\<lambda>p. Ready uart_device)\<rparr>)
           (SPS30Reader (Some ''COM5'') 5 True, 1)))) = 1"
proof -
  have h: "device connected_reader \<noteq> None \<and> \<not> paused connected_reader
      \<and> warmup_deadline connected_reader \<noteq> 0
      \<and> clock_read silent_env < warmup_deadline connected_reader"
    by (simp add: connected_reader_def SPS30Reader_def silent_env_def)
  have h49: "device (connected_reader\<lparr>consecutive_read_failures := 49\<rparr>) \<noteq> None
      \<and> \<not> paused (connected_reader\<lparr>consecutive_read_failures := 49\<rparr>)
      \<and> warmup_deadline (connected_reader\<lparr>consecutive_read_failures := 49\<rparr>) \<noteq> 0
      \<and> clock_read silent_env
          < warmup_deadline (connected_reader\<lparr>consecutive_read_failures := 49\<rparr>)"
    by (simp add: connected_reader_def SPS30Reader_def silent_env_def)
  have c: "consecutive_read_failures connected_reader = 0"
    "max_consecutive_failures connected_reader = 50"
    by (simp_all add: connected_reader_def SPS30Reader_def)
  have n: "device (SPS30Reader (Some ''COM5'') 5 True) = None
      \<and> fst (snd (connect all_drivers (silent_env\<lparr>probe := (\<lambda>p. Ready uart_device)\<rparr>)
           (SPS30Reader (Some ''COM5'') 5 True)))
      \<and> \<not> paused (SPS30Reader (Some ''COM5'') 5 True)
      \<and> clock_connect (silent_env\<lparr>probe := (\<lambda>p. Ready uart_device)\<rparr>) + 5 \<noteq> 0
      \<and> clock_read (silent_env\<lparr>probe := (\<lambda>p. Ready uart_device)\<rparr>)
          < clock_connect (silent_env\<lparr>probe := (\<lambda>p. Ready uart_device)\<rparr>) + 5"
    by (simp add: connect_def drivers_missing_def all_drivers_def ports_to_try_def
        SPS30Reader_def silent_env_def Let_def)
  have m: "max_consecutive_failures (SPS30Reader (Some ''COM5'') 5 True) = 50"
    by (simp add: SPS30Reader_def)
  show ?thesis
    using h c n m
      warmup_tick_counts_failure [of connected_reader silent_env all_drivers exact_builtins 1
        "SPS30Reader (Some ''COM5'') 5 True" "silent_env\<lparr>probe := (\<lambda>p. Ready uart_device)\<rparr>"]
      warmup_tick_counts_failure [of "connected_reader\<lparr>consecutive_read_failures := 49\<rparr>"
        silent_env all_drivers exact_builtins 1
        "SPS30Reader (Some ''COM5'') 5 True" "silent_env\<lparr>probe := (\<lambda>p. Ready uart_device)\<rparr>"]
      h49
    by (simp add: connected_reader_def SPS30Reader_def)
qed

text \<open>
  The claim C2 as stated fails: one second into the warm-up window of a connected
  reader whose counter is 0, the iteration leaves the counter at 1.
\<close>

theorem warmup_tick_counterexample:
  "clock_read silent_env < warmup_deadline connected_reader
   \<and> consecutive_read_failures connected_reader = 0
   \<and> consecutive_read_failures
        (fst (fst (iteration all_drivers exact_builtins silent_env (connected_reader, 1)))) = 1"
  by (simp add: iteration_def connect_phase_def read_phase_def read_measurement_def
      ensure_started_def connected_reader_def SPS30Reader_def silent_env_def Let_def)

text \<open>
  C4. \<^verbatim>\<open>_disconnect\<close> clears the device, the connection and the port but does not
  touch \<^verbatim>\<open>_measurement_started\<close>: after \<^verbatim>\<open>stop()\<close>, or a bare \<^verbatim>\<open>_disconnect()\<close>, on
  a connected reader the flag is still true with no device, and a reconnect on which
  no start command succeeds leaves it true for the new device.
\<close>

theorem disconnect_keeps_measurement_started:
  "device (obj (fst (stop True (boot connected_reader)))) = None
   \<and> measurement_started (obj (fst (stop True (boot connected_reader)))) = True
   \<and> device (fst (disconnect connected_reader)) = None
   \<and> measurement_started (fst (disconnect connected_reader)) = True
   \<and> connect all_drivers
        (silent_env\<lparr>probe := (\<lambda>p. Ready uart_device), start_fmt_ok := False,
           start_plain_ok := False\<rparr>)
        (fst (disconnect connected_reader))
       = (connected_reader, True, [TryPort ''COM5''])"
  by (simp add: stop_def boot_def disconnect_def connect_def drivers_missing_def
      ports_to_try_def ensure_started_def all_drivers_def connected_reader_def
      SPS30Reader_def silent_env_def uart_device_def Let_def)

lemma set_port_fields:
  "device (fst (set_port X s)) = None"
  "conn (fst (set_port X s)) = None"
  "port (fst (set_port X s)) = None"
  "last_sample_time (fst (set_port X s)) = None"
  "\<not> measurement_started (fst (set_port X s))"
  "uart_port (fst (set_port X s)) = X"
  by (simp_all add: set_port_def disconnect_def Let_def)

lemma set_port_events: "snd (set_port X s) = snd (disconnect (s\<lparr>uart_port := X\<rparr>))"
  by (simp add: set_port_def split: prod.splits)

lemma ports_to_try_pinned:
  assumes "uart_port s = Some p" "p \<noteq> []"
  shows "ports_to_try s env = [p]"
  using assms by (simp add: ports_to_try_def Let_def)

lemma set_port_teardown:
  "snd (set_port X s) =
     [EnterDisconnect]
       @ (case device s of
            Some dev \<Rightarrow> if has_stop_measurement dev then [StopMeasurement] else []
          | None \<Rightarrow> [])
       @ (case port s of Some q \<Rightarrow> [ClosePort q] | None \<Rightarrow> [])"
  by (simp add: set_port_def disconnect_def Let_def)

text \<open>
  C6. For every port value \<open>X\<close>, \<^verbatim>\<open>set_port(X)\<close> tears down the current session: it runs
  \<^verbatim>\<open>_disconnect\<close> once, which stops the measurement on the open device when the
  driver has \<^verbatim>\<open>stop_measurement\<close> and closes the open port, and it leaves no
  device, connection or port; it clears \<^verbatim>\<open>_last_sample_time\<close> and
  \<^verbatim>\<open>_measurement_started\<close> and stores \<open>X\<close>. When \<open>X\<close> is a port name, that is a
  non-empty string as the port menu passes it, the candidate list of the next
  \<^verbatim>\<open>_connect\<close> is \<open>[X]\<close> whatever the port was before, and with a driver present \<open>X\<close>
  is the one port that is tried.
\<close>

theorem set_port_targets_port:
  "device (fst (set_port X s)) = None
   \<and> conn (fst (set_port X s)) = None
   \<and> port (fst (set_port X s)) = None
   \<and> last_sample_time (fst (set_port X s)) = None
   \<and> \<not> measurement_started (fst (set_port X s))
   \<and> uart_port (fst (set_port X s)) = X
   \<and> disconnects (snd (set_port X s)) = 1
   \<and> snd (set_port X s) =
       [EnterDisconnect]
         @ (case device s of
              Some dev \<Rightarrow> if has_stop_measurement dev then [StopMeasurement] else []
            | None \<Rightarrow> [])
         @ (case port s of Some q \<Rightarrow> [ClosePort q] | None \<Rightarrow> [])
   \<and> (X = Some p \<and> p \<noteq> [] \<longrightarrow>
        ports_to_try (fst (set_port X s)) env = [p]
      \<and> (\<not> drivers_missing d \<longrightarrow>
           tried (snd (snd (connect d env (fst (set_port X s))))) = [p]))"
proof -
  have pinned: "ports_to_try (fst (set_port X s)) env = [p]" if "X = Some p" "p \<noteq> []"
    using that by (intro ports_to_try_pinned) (simp_all add: set_port_fields)
  have one: "tried (snd (snd (connect d env (fst (set_port X s))))) = [p]"
    if "X = Some p" "p \<noteq> []" "\<not> drivers_missing d"
  proof -
    have "connect d env (fst (set_port X s)) = try_ports d env (fst (set_port X s)) None [p]"
      using that(3) by (simp only: connect_def pinned [OF that(1,2)] if_False)
    then show ?thesis by (simp only: tried_try_ports_single)
  qed
  have count: "disconnects (snd (set_port X s)) = 1"
    by (simp add: set_port_events disconnect_events)
  show ?thesis
    using pinned one count set_port_teardown [of X s] set_port_fields [of X s] by blast
qed

text \<open>
  The witness moves a reader that is connected on COM5 to COM7: the measurement is
  stopped, COM5 is closed, and the next candidate list is COM7 alone although COM3 and
  COM5 are detected.
\<close>

theorem set_port_targets_port_witness:
  "Some ''COM7'' = Some ''COM7'' \<and> ''COM7'' \<noteq> [] \<and> \<not> drivers_missing all_drivers
   \<and> uart_port connected_reader = Some ''COM5''
   \<and> snd (set_port (Some ''COM7'') connected_reader)
       = [EnterDisconnect, StopMeasurement, ClosePort ''COM5'']
   \<and> ports_to_try (fst (set_port (Some ''COM7'') connected_reader))
        (silent_env\<lparr>detected_ports := [''COM3'', ''COM5'']\<rparr>) = [''COM7'']
   \<and> tried (snd (snd (connect all_drivers (silent_env\<lparr>detected_ports := [''COM3'', ''COM5'']\<rparr>)
        (fst (set_port (Some ''COM7'') connected_reader))))) = [''COM7'']"
proof -
  have h: "Some ''COM7'' = Some ''COM7'' \<and> ''COM7'' \<noteq> []" by simp
  have m: "\<not> drivers_missing all_drivers"
    by (simp add: drivers_missing_def all_drivers_def)
  have u: "uart_port connected_reader = Some ''COM5''"
    by (simp add: connected_reader_def SPS30Reader_def)
  have e: "[EnterDisconnect]
         @ (case device connected_reader of
              Some dev \<Rightarrow> if has_stop_measurement dev then [StopMeasurement] else []
            | None \<Rightarrow> [])
         @ (case port connected_reader of Some q \<Rightarrow> [ClosePort q] | None \<Rightarrow> [])
       = [EnterDisconnect, StopMeasurement, ClosePort ''COM5'']"
    by (simp add: connected_reader_def SPS30Reader_def uart_device_def)
  show ?thesis
    using h m u set_port_targets_port [of "Some ''COM7''" connected_reader "''COM7''"
        "silent_env\<lparr>detected_ports := [''COM3'', ''COM5'']\<rparr>" all_drivers]
    unfolding e by blast
qed

lemma one_loop_boot: "thread s = None \<Longrightarrow> one_loop (boot s)"
  by (simp add: one_loop_def boot_def)

lemma one_loop_start: "one_loop w \<Longrightarrow> one_loop (start w)"
  by (cases "thread (obj w)") (auto simp: one_loop_def start_def)

lemma one_loop_stop: "one_loop w \<Longrightarrow> one_loop (fst (stop True w))"
  by (cases "thread (obj w)")
     (auto simp: one_loop_def stop_def Let_def disconnect_fields distinct_removeAll
        split: prod.splits)

lemma one_loop_exits: "one_loop w \<Longrightarrow> one_loop (loop_exits t w)"
  by (auto simp: one_loop_def loop_exits_def distinct_removeAll)

lemma one_loop_calls:
  "one_loop w \<Longrightarrow> Stop False \<notin> set calls \<Longrightarrow> one_loop (do_calls calls w)"
proof (induction calls w rule: do_calls.induct)
  case (3 joined cs w)
  then have "joined" by (cases joined) auto
  with 3 show ?case by (simp add: one_loop_stop)
qed (simp_all add: one_loop_start one_loop_exits)

lemma one_loop_length: "one_loop w \<Longrightarrow> length (live w) \<le> 1"
proof -
  assume a: "one_loop w"
  then have "card (set (live w)) \<le> card (set_option (thread (obj w)))"
    by (intro card_mono) (auto simp: one_loop_def)
  moreover have "card (set_option (thread (obj w))) \<le> 1"
    by (cases "thread (obj w)") simp_all
  moreover have "card (set (live w)) = length (live w)"
    using a by (simp add: one_loop_def distinct_card)
  ultimately show ?thesis by linarith
qed

text \<open>
  \<^verbatim>\<open>start()\<close> on a reader whose thread handle is set changes nothing: the stop event
  is not cleared and no thread is created. Over any sequence of calls on a new reader
  in which every \<^verbatim>\<open>stop()\<close> found the loop thread ended within its join, at most one
  loop thread is running.
\<close>

lemma start_idempotent:
  "(thread (obj w) \<noteq> None \<longrightarrow> start w = w)
   \<and> (Stop False \<notin> set calls \<longrightarrow>
        length (live (do_calls calls (boot (SPS30Reader p period cb)))) \<le> 1)"
proof -
  have "one_loop (boot (SPS30Reader p period cb))"
    by (rule one_loop_boot) (simp add: SPS30Reader_def)
  then have "length (live (do_calls calls (boot (SPS30Reader p period cb)))) \<le> 1"
    if "Stop False \<notin> set calls"
    using that by (intro one_loop_length one_loop_calls)
  then show ?thesis by (simp add: start_def)
qed

lemma start_idempotent_example:
  "thread (obj (start (boot (SPS30Reader None 5 True)))) \<noteq> None
   \<and> start (start (boot (SPS30Reader None 5 True))) = start (boot (SPS30Reader None 5 True))
   \<and> Stop False \<notin> set [Start, Start, Stop True, Start]
   \<and> length (live (do_calls [Start, Start, Stop True, Start] (boot (SPS30Reader None 5 True)))) \<le> 1"
proof -
  have h: "thread (obj (start (boot (SPS30Reader None 5 True)))) \<noteq> None"
    by (simp add: start_def boot_def SPS30Reader_def)
  have c: "Stop False \<notin> set [Start, Start, Stop True, Start]" by simp
  show ?thesis
    using h c start_idempotent [of "start (boot (SPS30Reader None 5 True))"
        "[Start, Start, Stop True, Start]" None 5 True]
    by blast
qed

text \<open>
  C10. The guard of \<^verbatim>\<open>start()\<close> looks at the handle only, and \<^verbatim>\<open>stop()\<close> clears the
  handle even when \<^verbatim>\<open>join(timeout=3.0)\<close> timed out, for instance while the loop sleeps
  through a 10 s backoff. After \<^verbatim>\<open>start()\<close>, such a \<^verbatim>\<open>stop()\<close> and another \<^verbatim>\<open>start()\<close>
  the handle was clear at the second \<^verbatim>\<open>start()\<close>, two loop threads are running, and
  the stop event that the first one was to see has been cleared.
\<close>

theorem restart_runs_second_loop:
  "thread (obj (do_calls [Start, Stop False] (boot (SPS30Reader None 5 True)))) = None
   \<and> live (do_calls [Start, Stop False] (boot (SPS30Reader None 5 True))) = [0]
   \<and> live (do_calls [Start, Stop False, Start] (boot (SPS30Reader None 5 True))) = [0, 1]
   \<and> \<not> stop_event (obj (do_calls [Start, Stop False, Start] (boot (SPS30Reader None 5 True))))"
  by (simp add: start_def stop_def boot_def disconnect_def SPS30Reader_def Let_def)

lemma read_measurement_cong:
  assumes "device s' = device s" "warmup_deadline s' = warmup_deadline s"
  shows "read_measurement b env s' = read_measurement b env s"
  unfolding read_measurement_def assms by (rule refl)

lemma read_measurement_events:
  "disconnects (snd (read_measurement b env s)) = 0"
  "tried (snd (read_measurement b env s)) = []"
  by (simp_all add: read_measurement_def disconnects_def split: option.splits)

lemma iteration_fail_below:
  assumes "device s \<noteq> None" "\<not> paused s" "fst (read_measurement b env s) = None"
    "consecutive_read_failures s + 1 < max_consecutive_failures s"
  shows "iteration d b env (s, bo) =
     ((ensure_started d env (s\<lparr>consecutive_read_failures := consecutive_read_failures s + 1\<rparr>), bo),
      snd (read_measurement b env s) @ [Sleep (1 / 2)])"
proof -
  have r: "read_measurement b env s = (None, snd (read_measurement b env s))"
    using assms(3) by (cases "read_measurement b env s") simp
  show ?thesis
    unfolding iteration_open [OF assms(1)] read_phase_no_sample [OF assms(2) r]
    using assms(4) by simp
qed

lemma iteration_fail_at:
  assumes "device s \<noteq> None" "\<not> paused s" "fst (read_measurement b env s) = None"
    "consecutive_read_failures s + 1 \<ge> max_consecutive_failures s"
  shows "iteration d b env (s, bo) =
     (((fst (disconnect (s\<lparr>consecutive_read_failures := consecutive_read_failures s + 1\<rparr>)))
          \<lparr>consecutive_read_failures := 0, measurement_started := False\<rparr>, bo),
      snd (read_measurement b env s)
        @ snd (disconnect (s\<lparr>consecutive_read_failures := consecutive_read_failures s + 1\<rparr>))
        @ [Sleep 1])"
proof -
  have r: "read_measurement b env s = (None, snd (read_measurement b env s))"
    using assms(3) by (cases "read_measurement b env s") simp
  show ?thesis
    unfolding iteration_open [OF assms(1)] read_phase_no_sample [OF assms(2) r]
    using assms(4) by simp
qed

lemma iterate_stopped: "stop_event (fst st) \<Longrightarrow> iterate d b envs st = (st, [])"
  by (cases envs) simp_all

lemma iterate_append:
  "iterate d b (xs @ ys) st =
     (case iterate d b xs st of
        (st', evs) \<Rightarrow> (case iterate d b ys st' of (st'', evs') \<Rightarrow> (st'', evs @ evs')))"
proof (induction xs arbitrary: st)
  case Nil
  show ?case by (simp split: prod.splits)
next
  case (Cons env xs)
  show ?case
  proof (cases "stop_event (fst st)")
    case True
    then show ?thesis by (simp add: iterate_stopped)
  next
    case False
    then show ?thesis by (simp add: Cons.IH split: prod.splits)
  qed
qed

lemma iterate_below:
  assumes "device s \<noteq> None" "\<not> paused s" "\<not> stop_event s"
    "\<forall>env\<in>set envs. fst (read_measurement b env s) = None"
    "consecutive_read_failures s + int (length envs) < max_consecutive_failures s"
  shows "disconnects (snd (iterate d b envs (s, bo))) = 0
    \<and> snd (fst (iterate d b envs (s, bo))) = bo
    \<and> device (fst (fst (iterate d b envs (s, bo)))) = device s
    \<and> warmup_deadline (fst (fst (iterate d b envs (s, bo)))) = warmup_deadline s
    \<and> paused (fst (fst (iterate d b envs (s, bo)))) = paused s
    \<and> stop_event (fst (fst (iterate d b envs (s, bo)))) = stop_event s
    \<and> max_consecutive_failures (fst (fst (iterate d b envs (s, bo)))) = max_consecutive_failures s
    \<and> consecutive_read_failures (fst (fst (iterate d b envs (s, bo))))
        = consecutive_read_failures s + int (length envs)"
  using assms
proof (induction envs arbitrary: s)
  case Nil
  show ?case by (simp add: disconnects_def)
next
  case (Cons env envs)
  let ?s1 = "ensure_started d env
      (s\<lparr>consecutive_read_failures := consecutive_read_failures s + 1\<rparr>)"
  have none: "fst (read_measurement b env s) = None"
    using Cons.prems(4) by simp
  have below: "consecutive_read_failures s + 1 < max_consecutive_failures s"
    using Cons.prems(5) by simp
  have step: "iteration d b env (s, bo) =
      ((?s1, bo), snd (read_measurement b env s) @ [Sleep (1 / 2)])"
    using Cons.prems(1,2) none below by (rule iteration_fail_below)
  have f1: "device ?s1 = device s" "warmup_deadline ?s1 = warmup_deadline s"
    "paused ?s1 = paused s" "stop_event ?s1 = stop_event s"
    "max_consecutive_failures ?s1 = max_consecutive_failures s"
    "consecutive_read_failures ?s1 = consecutive_read_failures s + 1"
    by (simp_all add: ensure_started_fields)
  have rd: "\<forall>e\<in>set envs. fst (read_measurement b e ?s1) = None"
    using Cons.prems(4) by (simp add: read_measurement_cong [OF f1(1,2)])
  have ih: "disconnects (snd (iterate d b envs (?s1, bo))) = 0
    \<and> snd (fst (iterate d b envs (?s1, bo))) = bo
    \<and> device (fst (fst (iterate d b envs (?s1, bo)))) = device ?s1
    \<and> warmup_deadline (fst (fst (iterate d b envs (?s1, bo)))) = warmup_deadline ?s1
    \<and> paused (fst (fst (iterate d b envs (?s1, bo)))) = paused ?s1
    \<and> stop_event (fst (fst (iterate d b envs (?s1, bo)))) = stop_event ?s1
    \<and> max_consecutive_failures (fst (fst (iterate d b envs (?s1, bo))))
        = max_consecutive_failures ?s1
    \<and> consecutive_read_failures (fst (fst (iterate d b envs (?s1, bo))))
        = consecutive_read_failures ?s1 + int (length envs)"
  proof (rule Cons.IH)
    show "device ?s1 \<noteq> None" using Cons.prems(1) by (simp add: f1)
    show "\<not> paused ?s1" using Cons.prems(2) by (simp add: f1)
    show "\<not> stop_event ?s1" using Cons.prems(3) by (simp add: f1)
    show "\<forall>e\<in>set envs. fst (read_measurement b e ?s1) = None" by (rule rd)
    show "consecutive_read_failures ?s1 + int (length envs) < max_consecutive_failures ?s1"
      using Cons.prems(5) by (simp add: f1)
  qed
  have it: "iterate d b (env # envs) (s, bo) =
      (fst (iterate d b envs (?s1, bo)),
       (snd (read_measurement b env s) @ [Sleep (1 / 2)]) @ snd (iterate d b envs (?s1, bo)))"
    using Cons.prems(3) by (simp add: step split: prod.splits)
  show ?case
    unfolding it using ih
    by (simp add: f1 disconnects_append read_measurement_events) (simp add: disconnects_def)
qed


lemma iteration_closed_events:
  assumes "device s = None"
  shows "\<exists>rest. snd (iteration d b env (s, bo)) = snd (snd (connect d env s)) @ rest"
proof (cases "connect d env s")
  case (fields s1 ok evs)
  show ?thesis
  proof (cases ok)
    case True
    then show ?thesis
      using assms fields
      by (cases "read_phase d b env (s1\<lparr>consecutive_read_failures := 0\<rparr>, 1)")
         (simp add: iteration_def connect_phase_def)
  next
    case False
    then show ?thesis
      using assms fields by (simp add: iteration_def connect_phase_def)
  qed
qed

text \<open>
  C3. From a reader with an open device, not paused, with the threshold 50 and the
  counter below it, as many consecutive iterations without a sample as it takes the
  counter to reach 50 call \<^verbatim>\<open>_disconnect\<close> exactly once, in the last of them and in no
  shorter run; afterwards no device is open, \<^verbatim>\<open>_measurement_started\<close> is false, the
  counter is 0, the last thing done is a sleep of one second, and the next iteration
  begins with a connection attempt.
\<close>

theorem threshold_forces_one_disconnect:
  assumes "device s \<noteq> None" "\<not> paused s" "\<not> stop_event s"
    "max_consecutive_failures s = 50" "consecutive_read_failures s < 50"
    "int (length envs) = 50 - consecutive_read_failures s"
    "\<forall>env\<in>set envs. fst (read_measurement b env s) = None"
  shows "disconnects (snd (iterate d b envs (s, bo))) = 1
    \<and> (\<forall>k<length envs. disconnects (snd (iterate d b (take k envs) (s, bo))) = 0)
    \<and> device (fst (fst (iterate d b envs (s, bo)))) = None
    \<and> \<not> measurement_started (fst (fst (iterate d b envs (s, bo))))
    \<and> consecutive_read_failures (fst (fst (iterate d b envs (s, bo)))) = 0
    \<and> last (snd (iterate d b envs (s, bo))) = Sleep 1
    \<and> (\<forall>env'. \<exists>rest. snd (iteration d b env' (fst (iterate d b envs (s, bo))))
          = snd (snd (connect d env' (fst (fst (iterate d b envs (s, bo)))))) @ rest)"
proof -
  have ne: "envs \<noteq> []" using assms(5,6) by auto
  define xs where "xs = butlast envs"
  define e where "e = last envs"
  have split: "envs = xs @ [e]" using ne by (simp add: xs_def e_def)
  have len: "consecutive_read_failures s + int (length xs) = 49"
    using assms(6) split by simp
  have xs_none: "\<forall>env\<in>set xs. fst (read_measurement b env s) = None"
    using assms(7) split by simp
  have e_none: "fst (read_measurement b e s) = None"
    using assms(7) split by simp
  define st where "st = fst (iterate d b xs (s, bo))"
  define s' where "s' = fst st"
  have below: "disconnects (snd (iterate d b xs (s, bo))) = 0
    \<and> snd (fst (iterate d b xs (s, bo))) = bo
    \<and> device (fst (fst (iterate d b xs (s, bo)))) = device s
    \<and> warmup_deadline (fst (fst (iterate d b xs (s, bo)))) = warmup_deadline s
    \<and> paused (fst (fst (iterate d b xs (s, bo)))) = paused s
    \<and> stop_event (fst (fst (iterate d b xs (s, bo)))) = stop_event s
    \<and> max_consecutive_failures (fst (fst (iterate d b xs (s, bo)))) = max_consecutive_failures s
    \<and> consecutive_read_failures (fst (fst (iterate d b xs (s, bo))))
        = consecutive_read_failures s + int (length xs)"
    using assms(1,2,3) xs_none
  proof (rule iterate_below)
    show "consecutive_read_failures s + int (length xs) < max_consecutive_failures s"
      using len assms(4) by simp
  qed
  have st_eq: "st = (s', bo)"
    using below by (simp add: st_def s'_def prod_eq_iff)
  have f: "device s' = device s" "warmup_deadline s' = warmup_deadline s"
    "\<not> paused s'" "\<not> stop_event s'" "max_consecutive_failures s' = 50"
    "consecutive_read_failures s' = 49"
    using below assms(2,3,4) len by (simp_all add: s'_def st_def)
  have e_none': "fst (read_measurement b e s') = None"
    using e_none by (simp add: read_measurement_cong [OF f(1,2)])
  have open': "device s' \<noteq> None" using assms(1) f(1) by simp
  let ?s1 = "s'\<lparr>consecutive_read_failures := consecutive_read_failures s' + 1\<rparr>"
  let ?fin = "(fst (disconnect ?s1))\<lparr>consecutive_read_failures := 0, measurement_started := False\<rparr>"
  have last_step: "iteration d b e (s', bo) =
     ((?fin, bo), snd (read_measurement b e s') @ snd (disconnect ?s1) @ [Sleep 1])"
    using open' f(3) e_none'
  proof (rule iteration_fail_at)
    show "max_consecutive_failures s' \<le> consecutive_read_failures s' + 1"
      using f(5,6) by simp
  qed
  have one: "iterate d b [e] (s', bo) =
     ((?fin, bo), snd (read_measurement b e s') @ snd (disconnect ?s1) @ [Sleep 1])"
    using f(4) by (simp add: last_step)
  have whole: "iterate d b envs (s, bo) =
     ((?fin, bo), snd (iterate d b xs (s, bo))
        @ snd (read_measurement b e s') @ snd (disconnect ?s1) @ [Sleep 1])"
  proof -
    have xs_res: "iterate d b xs (s, bo) = ((s', bo), snd (iterate d b xs (s, bo)))"
      using st_eq by (simp add: st_def prod_eq_iff)
    have "iterate d b (xs @ [e]) (s, bo) =
        (case ((s', bo), snd (iterate d b xs (s, bo))) of
           (st', evs) \<Rightarrow> (case iterate d b [e] st' of (st'', evs') \<Rightarrow> (st'', evs @ evs')))"
      by (subst iterate_append, subst xs_res, rule refl)
    then show ?thesis
      unfolding split by (simp add: one del: iterate.simps)
  qed
  have c1: "disconnects (snd (iterate d b envs (s, bo))) = 1"
    unfolding whole using below
    by (simp add: disconnects_append read_measurement_events disconnect_events)
       (simp add: disconnects_def)
  have c2: "disconnects (snd (iterate d b (take k envs) (s, bo))) = 0" if "k < length envs" for k
  proof -
    have "disconnects (snd (iterate d b (take k envs) (s, bo))) = 0
      \<and> snd (fst (iterate d b (take k envs) (s, bo))) = bo
      \<and> device (fst (fst (iterate d b (take k envs) (s, bo)))) = device s
      \<and> warmup_deadline (fst (fst (iterate d b (take k envs) (s, bo)))) = warmup_deadline s
      \<and> paused (fst (fst (iterate d b (take k envs) (s, bo)))) = paused s
      \<and> stop_event (fst (fst (iterate d b (take k envs) (s, bo)))) = stop_event s
      \<and> max_consecutive_failures (fst (fst (iterate d b (take k envs) (s, bo))))
          = max_consecutive_failures s
      \<and> consecutive_read_failures (fst (fst (iterate d b (take k envs) (s, bo))))
          = consecutive_read_failures s + int (length (take k envs))"
      using assms(1,2,3)
    proof (rule iterate_below)
      show "\<forall>env\<in>set (take k envs). fst (read_measurement b env s) = None"
        using assms(7) by (meson in_set_takeD)
      show "consecutive_read_failures s + int (length (take k envs)) < max_consecutive_failures s"
        using that assms(4,6) by simp
    qed
    then show ?thesis by blast
  qed
  have fin: "device ?fin = None" "\<not> measurement_started ?fin"
    "consecutive_read_failures ?fin = 0"
    by (simp_all add: disconnect_fields)
  have c6: "last (snd (iterate d b envs (s, bo))) = Sleep 1"
    unfolding whole by simp
  have c7: "\<exists>rest. snd (iteration d b env' (fst (iterate d b envs (s, bo))))
          = snd (snd (connect d env' (fst (fst (iterate d b envs (s, bo)))))) @ rest" for env'
    unfolding whole using iteration_closed_events [OF fin(1), of d b env' bo] by simp
  show ?thesis
    using c1 c2 c6 c7 fin unfolding whole by simp
qed

theorem threshold_forces_one_disconnect_witness:
  "device connected_reader \<noteq> None \<and> \<not> paused connected_reader
   \<and> \<not> stop_event connected_reader
   \<and> max_consecutive_failures connected_reader = 50
   \<and> consecutive_read_failures connected_reader < 50
   \<and> int (length (replicate 50 (silent_env\<lparr>clock_read := 200\<rparr>)))
        = 50 - consecutive_read_failures connected_reader
   \<and> fst (read_measurement exact_builtins (silent_env\<lparr>clock_read := 200\<rparr>) connected_reader)
        = None
   \<and> disconnects (snd (iterate all_drivers exact_builtins
        (replicate 50 (silent_env\<lparr>clock_read := 200\<rparr>)) (connected_reader, 1))) = 1
   \<and> consecutive_read_failures (fst (fst (iterate all_drivers exact_builtins
        (replicate 50 (silent_env\<lparr>clock_read := 200\<rparr>)) (connected_reader, 1)))) = 0"
proof -
  have h: "device connected_reader \<noteq> None" "\<not> paused connected_reader"
    "\<not> stop_event connected_reader" "max_consecutive_failures connected_reader = 50"
    "consecutive_read_failures connected_reader < 50"
    "int (length (replicate 50 (silent_env\<lparr>clock_read := 200\<rparr>)))
        = 50 - consecutive_read_failures connected_reader"
    by (simp_all add: connected_reader_def SPS30Reader_def)
  have r: "fst (read_measurement exact_builtins (silent_env\<lparr>clock_read := 200\<rparr>)
      connected_reader) = None"
    by (simp add: read_measurement_def connected_reader_def SPS30Reader_def silent_env_def
        uart_device_def)
  then have a: "\<forall>env\<in>set (replicate 50 (silent_env\<lparr>clock_read := 200\<rparr>)).
      fst (read_measurement exact_builtins env connected_reader) = None"
    by simp
  show ?thesis
    using h r threshold_forces_one_disconnect [OF h a, of all_drivers 1]
    by blast
qed

lemma iteration_connect_fails:
  assumes "device s = None" "\<not> fst (snd (connect d env s))"
  shows "iteration d b env (s, bo) =
     ((fst (connect d env s), min 10 (bo * (3 / 2))),
      snd (snd (connect d env s)) @ [Sleep (min 10 bo)])"
  using assms by (cases "connect d env s") (simp add: iteration_def connect_phase_def)

lemma read_phase_backoff: "snd (fst (read_phase d b env (s, bo))) = bo"
  by (simp add: read_phase_def Let_def split: prod.splits option.splits)

lemma min10_step:
  "min 10 (min 10 (x * (3 / 2)) * (3 / 2) ^ k) = min (10::rat) (x * (3 / 2) ^ Suc k)"
proof (cases "x * (3 / 2) \<ge> 10")
  case True
  have p: "(1::rat) \<le> (3 / 2) ^ k" by (rule one_le_power) simp
  have "(10::rat) * 1 \<le> (x * (3 / 2)) * (3 / 2) ^ k"
    using True p by (intro mult_mono) simp_all
  then show ?thesis using True p by (simp add: min_def mult.assoc)
next
  case False
  then show ?thesis by (simp add: min_def mult.assoc)
qed

lemma iterate_connect_failures:
  assumes "device s = None" "\<not> stop_event s"
    "\<forall>env\<in>set envs. \<not> fst (snd (connect d env s))"
  shows "sleeps (snd (iterate d b envs (s, bo)))
       = map (\<lambda>k. min 10 (bo * (3 / 2) ^ k)) [0..<length envs]
    \<and> device (fst (fst (iterate d b envs (s, bo)))) = None
    \<and> uart_port (fst (fst (iterate d b envs (s, bo)))) = uart_port s"
  using assms
proof (induction envs arbitrary: s bo)
  case Nil
  then show ?case by simp
next
  case (Cons env envs)
  let ?s1 = "fst (connect d env s)"
  let ?b1 = "min 10 (bo * (3 / 2))"
  have fails: "\<not> fst (snd (connect d env s))" using Cons.prems(3) by simp
  have step: "iteration d b env (s, bo) =
     ((?s1, ?b1), snd (snd (connect d env s)) @ [Sleep (min 10 bo)])"
    using Cons.prems(1) fails by (rule iteration_connect_fails)
  have d1: "device ?s1 = None" using fails Cons.prems(1) by (rule connect_failed)
  have u1: "uart_port ?s1 = uart_port s" by (rule connect_frame)
  have st1: "\<not> stop_event ?s1" using Cons.prems(2) by (simp add: connect_frame)
  have rest: "\<forall>e\<in>set envs. \<not> fst (snd (connect d e ?s1))"
    using Cons.prems(3) by (simp add: connect_ok_indep [OF u1])
  have ih: "sleeps (snd (iterate d b envs (?s1, ?b1)))
       = map (\<lambda>k. min 10 (?b1 * (3 / 2) ^ k)) [0..<length envs]
    \<and> device (fst (fst (iterate d b envs (?s1, ?b1)))) = None
    \<and> uart_port (fst (fst (iterate d b envs (?s1, ?b1)))) = uart_port ?s1"
    using d1 st1 rest by (rule Cons.IH)
  have it: "iterate d b (env # envs) (s, bo) =
      (fst (iterate d b envs (?s1, ?b1)),
       (snd (snd (connect d env s)) @ [Sleep (min 10 bo)]) @ snd (iterate d b envs (?s1, ?b1)))"
    using Cons.prems(2) by (simp add: step split: prod.splits)
  have ih_sleeps: "sleeps (snd (iterate d b envs (?s1, ?b1)))
       = map (\<lambda>k. min 10 (bo * (3 / 2) ^ Suc k)) [0..<length envs]"
    using ih by (simp only: min10_step)
  have "sleeps (snd (iterate d b (env # envs) (s, bo)))
      = min 10 bo # map (\<lambda>k. min 10 (bo * (3 / 2) ^ Suc k)) [0..<length envs]"
    unfolding it by (simp only: snd_conv sleeps_append connect_frame ih_sleeps)
       (simp del: power_Suc)
  also have "\<dots> = map (\<lambda>k. min 10 (bo * (3 / 2) ^ k)) [0..<length (env # envs)]"
    by (simp add: map_upt_Suc del: upt_Suc)
  finally show ?case
    unfolding it using ih u1 by simp
qed

lemma sorted_map_upt:
  assumes "\<And>i j. i \<le> j \<Longrightarrow> f i \<le> (f j :: rat)"
  shows "sorted (map f [0..<n])"
  by (simp add: sorted_iff_nth_mono assms)

text \<open>
  C5. Starting from \<^verbatim>\<open>backoff_s = 1.0\<close> (the start of \<^verbatim>\<open>_run\<close>, or the value it is reset
  to), a run of consecutive failed \<^verbatim>\<open>_connect\<close> calls sleeps \<open>min 10 (1.5 ^ k)\<close> seconds
  after the \<open>k\<close>-th failure, counted from 0: the sequence starts at 1, is multiplied by
  1.5 each time until the cap, is non-decreasing and never exceeds 10. When a
  \<^verbatim>\<open>_connect\<close> then succeeds, the backoff is 1 and the failure counter 0 before the
  read of that iteration, and the backoff is still 1 at its end. The values that occur
  (1, 1.5, 2.25, 3.375, 5.0625, 7.59375, 11.390625, 10 and 15) are exact in binary64,
  so the rational arithmetic of the model is the program's.
\<close>

theorem backoff_sequence:
  assumes "device s = None" "\<not> stop_event s"
    "\<forall>env\<in>set envs. \<not> fst (snd (connect d env s))"
  shows "sleeps (snd (iterate d b envs (s, 1)))
       = map (\<lambda>k. min 10 ((3 / 2) ^ k)) [0..<length envs]
    \<and> sorted (sleeps (snd (iterate d b envs (s, 1))))
    \<and> (\<forall>t\<in>set (sleeps (snd (iterate d b envs (s, 1)))). t \<le> 10)
    \<and> (fst (snd (connect d env' s)) \<longrightarrow>
         snd (snd (fst (connect_phase d env' (fst (iterate d b envs (s, 1)))))) = 1
       \<and> consecutive_read_failures
           (fst (snd (fst (connect_phase d env' (fst (iterate d b envs (s, 1))))))) = 0
       \<and> snd (fst (iteration d b env' (fst (iterate d b envs (s, 1))))) = 1)"
proof -
  define st where "st = fst (iterate d b envs (s, 1))"
  have base: "sleeps (snd (iterate d b envs (s, 1)))
       = map (\<lambda>k. min 10 (1 * (3 / 2) ^ k)) [0..<length envs]
    \<and> device (fst (fst (iterate d b envs (s, 1)))) = None
    \<and> uart_port (fst (fst (iterate d b envs (s, 1)))) = uart_port s"
    using assms by (rule iterate_connect_failures)
  then have seq: "sleeps (snd (iterate d b envs (s, 1)))
       = map (\<lambda>k. min 10 ((3 / 2) ^ k)) [0..<length envs]"
    by simp
  have mono: "min 10 ((3 / 2) ^ i) \<le> min (10::rat) ((3 / 2) ^ j)" if "i \<le> j" for i j
  proof -
    have "((3 / 2)::rat) ^ i \<le> (3 / 2) ^ j"
      using that by (intro power_increasing) simp_all
    then show ?thesis by (rule min.mono [OF order_refl])
  qed
  have srt: "sorted (sleeps (snd (iterate d b envs (s, 1))))"
    unfolding seq by (rule sorted_map_upt) (rule mono)
  have cap: "\<forall>t\<in>set (sleeps (snd (iterate d b envs (s, 1)))). t \<le> 10"
    unfolding seq by auto
  have succ: "snd (snd (fst (connect_phase d env' st))) = 1
       \<and> consecutive_read_failures (fst (snd (fst (connect_phase d env' st)))) = 0
       \<and> snd (fst (iteration d b env' st)) = 1"
    if ok: "fst (snd (connect d env' s))"
  proof -
    obtain s' bo' where st_eq: "st = (s', bo')" by (cases st)
    have dn: "device s' = None" and up: "uart_port s' = uart_port s"
      using base st_eq by (simp_all add: st_def)
    have ok': "fst (snd (connect d env' s'))"
      using ok by (simp add: connect_ok_indep [OF up])
    have cp: "connect_phase d env' (s', bo') =
       ((True, (fst (connect d env' s'))\<lparr>consecutive_read_failures := 0\<rparr>, 1),
        snd (snd (connect d env' s')))"
      using dn ok' by (rule connect_phase_succeeds)
    have "snd (fst (iteration d b env' (s', bo'))) = 1"
      using read_phase_backoff [of d b env' "(fst (connect d env' s'))\<lparr>consecutive_read_failures := 0\<rparr>" 1]
      by (auto simp: iteration_def cp split: prod.splits)
    then show ?thesis by (simp add: st_eq cp)
  qed
  show ?thesis
    using seq srt cap succ unfolding st_def by blast
qed

theorem backoff_sequence_witness:
  "device (SPS30Reader (Some ''COM5'') 5 True) = None
   \<and> \<not> stop_event (SPS30Reader (Some ''COM5'') 5 True)
   \<and> \<not> fst (snd (connect all_drivers silent_env (SPS30Reader (Some ''COM5'') 5 True)))
   \<and> fst (snd (connect all_drivers (silent_env\<lparr>probe := (\<lambda>p. Ready uart_device)\<rparr>)
        (SPS30Reader (Some ''COM5'') 5 True)))
   \<and> sleeps (snd (iterate all_drivers exact_builtins (replicate 8 silent_env)
        (SPS30Reader (Some ''COM5'') 5 True, 1)))
       = [1, 3 / 2, 9 / 4, 27 / 8, 81 / 16, 243 / 32, 10, 10]
   \<and> snd (fst (iteration all_drivers exact_builtins
        (silent_env\<lparr>probe := (\<lambda>p. Ready uart_device)\<rparr>)
        (fst (iterate all_drivers exact_builtins (replicate 8 silent_env)
           (SPS30Reader (Some ''COM5'') 5 True, 1))))) = 1"
proof -
  have h: "device (SPS30Reader (Some ''COM5'') 5 True) = None"
    "\<not> stop_event (SPS30Reader (Some ''COM5'') 5 True)"
    by (simp_all add: SPS30Reader_def)
  have f: "\<not> fst (snd (connect all_drivers silent_env (SPS30Reader (Some ''COM5'') 5 True)))"
    by (simp add: connect_def drivers_missing_def all_drivers_def ports_to_try_def
        SPS30Reader_def silent_env_def)
  then have a: "\<forall>env\<in>set (replicate 8 silent_env).
      \<not> fst (snd (connect all_drivers env (SPS30Reader (Some ''COM5'') 5 True)))"
    by simp
  have ok: "fst (snd (connect all_drivers (silent_env\<lparr>probe := (\<lambda>p. Ready uart_device)\<rparr>)
        (SPS30Reader (Some ''COM5'') 5 True)))"
    by (simp add: connect_def drivers_missing_def all_drivers_def ports_to_try_def
        SPS30Reader_def silent_env_def Let_def)
  have vals: "map (\<lambda>k. min (10::rat) ((3 / 2) ^ k)) [0..<length (replicate 8 silent_env)]
       = [1, 3 / 2, 9 / 4, 27 / 8, 81 / 16, 243 / 32, 10, 10]"
    by code_simp
  show ?thesis
    using h f ok
      backoff_sequence [OF h a, of exact_builtins
        "silent_env\<lparr>probe := (\<lambda>p. Ready uart_device)\<rparr>"]
    unfolding vals by blast
qed

end
